theory Spec2Isabelle
  imports Main "HOL-Library.AList" "HOL-Library.Word"
begin

section \<open>JavaScript values\<close>

text \<open>
  The translation arguments are typed \<^verbatim>\<open>any[]\<close>. The model keeps the primitive values
  a caller passes as positional arguments. \<open>JNum n\<close> is the number \<open>n\<close>, an integer from 0
  to \<open>2^32 - 1\<close>: each of them is a number of JavaScript, and its \<^verbatim>\<open>String(...)\<close> image
  and its JSON text are its decimal numeral.
\<close>

datatype jsval = JUndefined | JNull | JBool bool | JNum "32 word" | JStr string

definition digit_char :: "nat \<Rightarrow> char" where
  "digit_char d = ''0123456789'' ! (d mod 10)"

fun nat_to_string :: "nat \<Rightarrow> string" where
  "nat_to_string n =
     (if n < 10 then [digit_char n] else nat_to_string (n div 10) @ [digit_char (n mod 10)])"

declare nat_to_string.simps [simp del]

text \<open>\<^verbatim>\<open>String(value)\<close> on the modelled values.\<close>

fun js_String :: "jsval \<Rightarrow> string" where
  "js_String JUndefined = ''undefined''"
| "js_String JNull = ''null''"
| "js_String (JBool b) = (if b then ''true'' else ''false'')"
| "js_String (JNum n) = nat_to_string (unat n)"
| "js_String (JStr s) = s"

section \<open>Template compiler (translate-util: compileTemplateFunction, taggedTemplate)\<close>

text \<open>
  The regular expression \<^verbatim>\<open>/\{\{(\d+)\}\}/g\<close>: two opening braces, a maximal non-empty
  run of ASCII digits, two closing braces. \<open>match_placeholder s\<close> is the match anchored at
  the start of \<open>s\<close>: the captured digits and the text after the match.
\<close>

definition is_digit :: "char \<Rightarrow> bool" where
  "is_digit c = (c \<in> set ''0123456789'')"

definition match_placeholder :: "string \<Rightarrow> (string \<times> string) option" where
  "match_placeholder s =
     (case s of
        c1 # c2 # rest \<Rightarrow>
          if c1 = CHR ''{'' \<and> c2 = CHR ''{'' then
            (case dropWhile is_digit rest of
               d1 # d2 # after \<Rightarrow>
                 if takeWhile is_digit rest \<noteq> [] \<and> d1 = CHR ''}'' \<and> d2 = CHR ''}''
                 then Some (takeWhile is_digit rest, after)
                 else None
             | _ \<Rightarrow> None)
          else None
      | _ \<Rightarrow> None)"

lemma match_placeholder_shorter:
  "match_placeholder s = Some (ds, after) \<Longrightarrow> length after < length s"
proof -
  assume m: "match_placeholder s = Some (ds, after)"
  then obtain c1 c2 rest where s: "s = c1 # c2 # rest"
    by (auto simp: match_placeholder_def split: list.splits)
  from m s obtain d1 d2 where d: "dropWhile is_digit rest = d1 # d2 # after"
    by (auto simp: match_placeholder_def split: list.splits if_splits)
  have "length (dropWhile is_digit rest) \<le> length rest"
    by (rule length_dropWhile_le)
  with d s show ?thesis by simp
qed

text \<open>
  The successive matches that \<^verbatim>\<open>template.replace(regex, callback)\<close> hands to the callback,
  left to right and not overlapping: the matched text, the captured group and the offset
  of the match. The captured group is a string: the callback receives it as it stands in
  the template, and the source pushes it unconverted.
\<close>

function regex_matches :: "nat \<Rightarrow> string \<Rightarrow> (string \<times> string \<times> nat) list" where
  "regex_matches offset [] = []"
| "regex_matches offset (c # cs) =
     (case match_placeholder (c # cs) of
        Some (paramIndex, after) \<Rightarrow>
          (''{{'' @ paramIndex @ ''}}'', paramIndex, offset)
            # regex_matches (offset + length (''{{'' @ paramIndex @ ''}}'')) after
      | None \<Rightarrow> regex_matches (Suc offset) cs)"
  by pat_completeness auto
termination
  by (relation "measure (\<lambda>(offset, s). length s)")
     (auto dest: match_placeholder_shorter)

text \<open>\<^verbatim>\<open>template.slice(start, end)\<close>, for \<open>start\<close> and \<open>end\<close> inside the string.\<close>

definition string_slice :: "string \<Rightarrow> nat \<Rightarrow> nat \<Rightarrow> string" where
  "string_slice s start end = take (end - start) (drop start s)"

text \<open>
  The callback of \<open>compileTemplateFunction\<close>, on the triple
  \<open>(segments, placeholders, lastIndex)\<close> it updates.
\<close>

definition compile_callback ::
  "string \<Rightarrow> (string \<times> string \<times> nat) \<Rightarrow> (string list \<times> string list \<times> nat)
     \<Rightarrow> (string list \<times> string list \<times> nat)" where
  "compile_callback template m acc =
     (case m of (match, paramIndex, offset) \<Rightarrow>
        (case acc of (segments, placeholders, lastIndex) \<Rightarrow>
           (segments @ [string_slice template lastIndex offset],
            placeholders @ [paramIndex],
            offset + length match)))"

text \<open>
  \<open>compileTemplateFunction\<close> returns a closure over \<open>segments\<close> and \<open>placeholders\<close>;
  the model returns the two captured arrays.
\<close>

definition compileTemplateFunction :: "string \<Rightarrow> string list \<times> string list" where
  "compileTemplateFunction template =
     (case fold (compile_callback template) (regex_matches 0 template) ([], [], 0) of
        (segments, placeholders, lastIndex) \<Rightarrow>
          (segments @ [drop lastIndex template], placeholders))"

text \<open>
  \<^verbatim>\<open>values[idx]\<close>: \<open>idx\<close> is \<open>undefined\<close> (no placeholder at this position) or the
  captured digit string, used as a property name of the array. It names an element only
  when it is the canonical numeral of an index (no leading zero) inside the array.
\<close>

definition digit_value :: "char \<Rightarrow> nat" where
  "digit_value c = length (takeWhile (\<lambda>d. d \<noteq> c) ''0123456789'')"

definition digits_to_nat :: "string \<Rightarrow> nat" where
  "digits_to_nat ds = foldl (\<lambda>n c. 10 * n + digit_value c) 0 ds"

definition array_index :: "string \<Rightarrow> nat option" where
  "array_index p =
     (if p \<noteq> [] \<and> list_all is_digit p \<and> (p = ''0'' \<or> hd p \<noteq> CHR ''0'')
      then Some (digits_to_nat p) else None)"

definition js_array_get :: "jsval list \<Rightarrow> string option \<Rightarrow> jsval" where
  "js_array_get values idx =
     (case idx of
        None \<Rightarrow> JUndefined
      | Some p \<Rightarrow>
          (case array_index p of
             None \<Rightarrow> JUndefined
           | Some i \<Rightarrow> if i < length values then values ! i else JUndefined))"

text \<open>\<^verbatim>\<open>placeholders[index]\<close>: \<open>undefined\<close> past the end of the array.\<close>

definition js_nth :: "'a list \<Rightarrow> nat \<Rightarrow> 'a option" where
  "js_nth xs i = (if i < length xs then Some (xs ! i) else None)"

text \<open>
  The \<open>interpolated\<close> value of one reduce step. The test \<^verbatim>\<open>idx ? ... : ''\<close> is on the
  truthiness of \<open>idx\<close>: \<open>undefined\<close> and the empty string are falsy, every other string
  is truthy, the string \<^verbatim>\<open>"0"\<close> included.
\<close>

definition interpolated :: "string option \<Rightarrow> jsval list \<Rightarrow> string" where
  "interpolated idx values =
     (let value = js_array_get values idx in
      if value \<noteq> JNull \<and> value \<noteq> JUndefined then js_String value
      else (case idx of
              None \<Rightarrow> []
            | Some p \<Rightarrow> if p \<noteq> [] then ''{{'' @ p @ ''}}'' else []))"

fun reduce_segments ::
  "string list \<Rightarrow> string list \<Rightarrow> jsval list \<Rightarrow> nat \<Rightarrow> string \<Rightarrow> string" where
  "reduce_segments [] placeholders values index prev = prev"
| "reduce_segments (current # rest) placeholders values index prev =
     reduce_segments rest placeholders values (Suc index)
       (prev @ current @ interpolated (js_nth placeholders index) values)"

definition taggedTemplate :: "string list \<Rightarrow> string list \<Rightarrow> jsval list \<Rightarrow> string" where
  "taggedTemplate segments placeholders values = reduce_segments segments placeholders values 0 []"

text \<open>Compiling a template and calling the returned function on \<open>values\<close>.\<close>

definition render :: "string \<Rightarrow> jsval list \<Rightarrow> string" where
  "render template values =
     (case compileTemplateFunction template of
        (segments, placeholders) \<Rightarrow> taggedTemplate segments placeholders values)"

text \<open>
  The scan of \<open>compileTemplateFunction\<close> as one recursion over the template, with the
  text read since the last match: the form in which the compiler is reasoned about
  (\<open>compile_by_scan\<close> shows that it computes the same arrays).
\<close>

function scan_template :: "string \<Rightarrow> string \<Rightarrow> string list \<times> string list" where
  "scan_template lit [] = ([lit], [])"
| "scan_template lit (c # cs) =
     (case match_placeholder (c # cs) of
        Some (paramIndex, after) \<Rightarrow>
          (case scan_template [] after of
             (segments, placeholders) \<Rightarrow> (lit # segments, paramIndex # placeholders))
      | None \<Rightarrow> scan_template (lit @ [c]) cs)"
  by pat_completeness auto
termination
  by (relation "measure (\<lambda>(lit, s). length s)")
     (auto dest: match_placeholder_shorter)

text \<open>
  The text made of the segments with one filling after each segment but the last:
  \<open>interleave [s0, s1, s2] [f0, f1] = s0 @ f0 @ s1 @ f1 @ s2\<close>.
\<close>

fun interleave :: "string list \<Rightarrow> string list \<Rightarrow> string" where
  "interleave [] fillings = []"
| "interleave (s # segments) [] = s"
| "interleave (s # segments) (f # fillings) = s @ f @ interleave segments fillings"

section \<open>Bundles and the bundle store\<close>

text \<open>
  A bundle entry (\<open>TranslationValue\<close>) is a string or a compiled template function; the
  functions a bundle ever holds are the closures of \<open>compileTemplateFunction\<close>, kept here
  as their captured arrays. \<open>TOther\<close> is any other JSON value a fetched file may hold
  under a key (a nested object, a number).

  A bundle (\<open>TranslationData\<close>) is a plain object used as a dictionary: its own
  properties, in insertion order, on top of what it inherits from \<open>Object.prototype\<close>.
  Bundles are mutated in place and compared by identity, so the store holds references
  into a heap of objects.
\<close>

datatype TranslationValue = TString string | TFunction "string list" "string list" | TOther

type_synonym TranslationData = "(string \<times> TranslationValue) list"

type_synonym ref = nat

record js_heap =
  objects :: "ref \<Rightarrow> TranslationData"
  next_ref :: ref

definition new_object :: "TranslationData \<Rightarrow> 'a js_heap_scheme \<Rightarrow> ref \<times> 'a js_heap_scheme" where
  "new_object content h =
     (next_ref h, h\<lparr>objects := (objects h)(next_ref h := content), next_ref := Suc (next_ref h)\<rparr>)"

text \<open>\<^verbatim>\<open>Object.keys(a)\<close>.\<close>

definition object_keys :: "TranslationData \<Rightarrow> string list" where
  "object_keys a = remdups (map fst a)"

text \<open>
  What a lookup returns at run time: \<^verbatim>\<open>null\<close>, a string, or (from an inherited function)
  the array of arguments itself. A lookup that throws gives \<open>Inl\<close> the error.
\<close>

datatype translated = RNull | RText string | RArgs "jsval list"

text \<open>
  The properties that every plain object inherits from \<open>Object.prototype\<close>. All but
  \<open>__proto__\<close> are functions; \<open>tryGetTranslate\<close> calls what it finds as
  \<^verbatim>\<open>temp(values)\<close>, a plain call in strict code, so with \<open>this\<close> undefined:
  \<^item> \<open>constructor\<close> is \<open>Object\<close>, and \<open>Object(values)\<close> returns the array \<open>values\<close>;
  \<^item> \<open>toString\<close> returns the text \<open>[object Undefined]\<close>;
  \<^item> every other function converts \<open>this\<close> to an object and throws a \<open>TypeError\<close>.
  The accessor \<open>__proto__\<close> reads as \<open>Object.prototype\<close>, an object.
\<close>

datatype inherited = InheritedFunction "jsval list \<Rightarrow> string + translated" | InheritedObject

definition Object_prototype :: "string \<Rightarrow> inherited option" where
  "Object_prototype name =
     (if name = ''constructor'' then Some (InheritedFunction (\<lambda>values. Inr (RArgs values)))
      else if name = ''toString''
        then Some (InheritedFunction (\<lambda>values. Inr (RText ''[object Undefined]'')))
      else if name \<in> set [''toLocaleString'', ''valueOf'', ''hasOwnProperty'', ''isPrototypeOf'',
                           ''propertyIsEnumerable'', ''__defineGetter__'', ''__defineSetter__'',
                           ''__lookupGetter__'', ''__lookupSetter__'']
        then Some (InheritedFunction
                     (\<lambda>values. Inl ''TypeError: Cannot convert undefined or null to object''))
      else if name = ''__proto__'' then Some InheritedObject
      else None)"

text \<open>
  \<open>tryGetTranslate\<close> (translate-util; the private method of the same name in
  \<open>I18nTranslateImplement\<close> has the same body, as have its copies of
  \<open>compileTemplateFunction\<close> and \<open>taggedTemplate\<close>). \<^verbatim>\<open>translations[key]\<close> is the bundle's
  own property, or else the inherited one. The second component of the result is the heap
  after the in-place compilation.
\<close>

definition tryGetTranslate ::
  "string \<Rightarrow> string \<Rightarrow> jsval list \<Rightarrow> (string \<rightharpoonup> ref) \<Rightarrow> (ref \<Rightarrow> TranslationData)
     \<Rightarrow> (string + translated) \<times> (ref \<Rightarrow> TranslationData)" where
  "tryGetTranslate key language values store objs =
     (case store language of
        None \<Rightarrow> (Inr RNull, objs)
      | Some translations \<Rightarrow>
          (case map_of (objs translations) key of
             Some (TString temp) \<Rightarrow>
               (case compileTemplateFunction temp of
                  (segments, placeholders) \<Rightarrow>
                    (Inr (RText (taggedTemplate segments placeholders values)),
                     objs(translations :=
                       AList.update key (TFunction segments placeholders) (objs translations))))
           | Some (TFunction segments placeholders) \<Rightarrow>
               (Inr (RText (taggedTemplate segments placeholders values)), objs)
           | Some TOther \<Rightarrow> (Inr (RText key), objs)
           | None \<Rightarrow>
               (case Object_prototype key of
                  Some (InheritedFunction temp) \<Rightarrow> (temp values, objs)
                | Some InheritedObject \<Rightarrow> (Inr (RText key), objs)
                | None \<Rightarrow> (Inr (RText key), objs))))"

text \<open>\<open>isDifferentTranslateData\<close>; an absent argument is \<open>None\<close>.\<close>

definition isDifferentTranslateData ::
  "(ref \<Rightarrow> TranslationData) \<Rightarrow> ref option \<Rightarrow> ref option \<Rightarrow> bool" where
  "isDifferentTranslateData objs a b =
     (case a of
        None \<Rightarrow> True
      | Some ra \<Rightarrow>
          (case b of
             None \<Rightarrow> True
           | Some rb \<Rightarrow>
               if ra = rb then False
               else if length (object_keys (objs ra)) \<noteq> length (object_keys (objs rb)) then True
               else False))"

section \<open>Resolution, signal-based variant (translate-base.ts: resolveTranslation, translateFn)\<close>

text \<open>
  \<open>resolveTranslation\<close>: \<^verbatim>\<open>tryGetTranslate(...) ?? key\<close> replaces \<^verbatim>\<open>null\<close> by the key; an
  error thrown by the lookup goes on to the caller.
\<close>

definition resolveTranslation ::
  "string \<Rightarrow> string \<Rightarrow> jsval list \<Rightarrow> (string \<rightharpoonup> ref) \<Rightarrow> (ref \<Rightarrow> TranslationData)
     \<Rightarrow> (string + translated) \<times> (ref \<Rightarrow> TranslationData)" where
  "resolveTranslation key language values translations objs =
     (case translations language of
        None \<Rightarrow> (Inr (RText key), objs)
      | Some langData \<Rightarrow>
          (case tryGetTranslate key language values translations objs of
             (Inl error, objs') \<Rightarrow> (Inl error, objs')
           | (Inr RNull, objs') \<Rightarrow> (Inr (RText key), objs')
           | (Inr result, objs') \<Rightarrow> (Inr result, objs')))"

text \<open>
  The function that the computed \<open>translateFn\<close> returns, for the signal values
  \<open>currentLang\<close>, \<open>fallbackLang\<close> and \<open>translations\<close> it has read. The condition
  \<^verbatim>\<open>result === key && fallbackLang && fallbackLang !== currentLang\<close> tests the fallback
  language for truthiness: it is a non-empty string.
\<close>

definition translateFn ::
  "string \<Rightarrow> string \<Rightarrow> (string \<rightharpoonup> ref) \<Rightarrow> string \<Rightarrow> jsval list \<Rightarrow> (ref \<Rightarrow> TranslationData)
     \<Rightarrow> (string + translated) \<times> (ref \<Rightarrow> TranslationData)" where
  "translateFn currentLang fallbackLang translations key values objs =
     (case resolveTranslation key currentLang values translations objs of
        (Inl error, objs') \<Rightarrow> (Inl error, objs')
      | (Inr result, objs') \<Rightarrow>
          if result = RText key \<and> fallbackLang \<noteq> [] \<and> fallbackLang \<noteq> currentLang
          then resolveTranslation key fallbackLang values translations objs'
          else (Inr result, objs'))"

section \<open>Resolution, class variant (I18nTranslateImplement: #getTranslationText)\<close>

text \<open>
  \<^verbatim>\<open>!translates\<close> holds for \<^verbatim>\<open>null\<close> and for the empty string (an array is truthy).
  The fields \<open>#storeLanguage\<close> and \<open>#fallbackLanguage\<close> of the instance are parameters.
\<close>

definition getTranslationText ::
  "(string \<rightharpoonup> ref) \<Rightarrow> string \<Rightarrow> string \<Rightarrow> string \<Rightarrow> jsval list \<Rightarrow> (ref \<Rightarrow> TranslationData)
     \<Rightarrow> (string + translated) \<times> (ref \<Rightarrow> TranslationData)" where
  "getTranslationText store fallbackLang key currentLang values objs =
     (case tryGetTranslate key currentLang values store objs of
        (Inl error, objs') \<Rightarrow> (Inl error, objs')
      | (Inr translates, objs') \<Rightarrow>
          (case (if (translates = RNull \<or> translates = RText [])
                     \<and> fallbackLang \<noteq> [] \<and> fallbackLang \<noteq> currentLang
                 then tryGetTranslate key fallbackLang values store objs'
                 else (Inr translates, objs')) of
             (Inl error, objs'') \<Rightarrow> (Inl error, objs'')
           | (Inr RNull, objs'') \<Rightarrow> (Inr (RText key), objs'')
           | (Inr result, objs'') \<Rightarrow> (Inr result, objs'')))"

text \<open>
  The text \<open>tryGetTranslate\<close> produces for an entry: a string is compiled and rendered, a
  compiled template is rendered, anything else gives the key.
\<close>

fun rendering :: "TranslationValue \<Rightarrow> string \<Rightarrow> jsval list \<Rightarrow> string" where
  "rendering (TString temp) key values = render temp values"
| "rendering (TFunction segments placeholders) key values = taggedTemplate segments placeholders values"
| "rendering TOther key values = key"

text \<open>
  The entry of \<open>key\<close> among the own properties of the bundle stored for a language, if
  both exist.
\<close>

definition bundle_entry ::
  "(string \<rightharpoonup> ref) \<Rightarrow> (ref \<Rightarrow> TranslationData) \<Rightarrow> string \<Rightarrow> string \<Rightarrow> TranslationValue option" where
  "bundle_entry store objs language key =
     (case store language of None \<Rightarrow> None | Some translations \<Rightarrow> map_of (objs translations) key)"

section \<open>Loader, signal-based variant (translate-base.ts)\<close>

text \<open>
  What an observable delivers to a subscriber: a value or an error. The HTTP client
  delivers the parsed body of the file, or a transport error.
\<close>

datatype 'a notification = Next 'a | Error string

record TranslationLoadResponse =
  resp_lang :: string
  resp_data :: ref

definition rx_map :: "('a \<Rightarrow> 'b) \<Rightarrow> 'a notification \<Rightarrow> 'b notification" where
  "rx_map f n = (case n of Next x \<Rightarrow> Next (f x) | Error e \<Rightarrow> Error e)"

text \<open>\<^verbatim>\<open>shareReplay(1)\<close> hands the source's notification on to every subscriber.\<close>

definition rx_shareReplay :: "'a notification \<Rightarrow> 'a notification" where
  "rx_shareReplay n = n"

text \<open>
  \<^verbatim>\<open>catchError(error => of({ lang, data: {} }))\<close>, the handler of every \<open>catchError\<close> of
  the loaders: the object literal is a new empty bundle.
\<close>

definition catchError_empty ::
  "string \<Rightarrow> TranslationLoadResponse notification \<Rightarrow> 'a js_heap_scheme
     \<Rightarrow> TranslationLoadResponse notification \<times> 'a js_heap_scheme" where
  "catchError_empty language n h =
     (case n of
        Next response \<Rightarrow> (Next response, h)
      | Error error \<Rightarrow>
          (case new_object [] h of
             (r, h') \<Rightarrow> (Next \<lparr>resp_lang = language, resp_data = r\<rparr>, h')))"

text \<open>The pipeline that \<open>getOrCreateTranslationRequest\<close> builds on \<^verbatim>\<open>httpClient.get(url)\<close>.\<close>

definition request_pipe ::
  "string \<Rightarrow> ref notification \<Rightarrow> 'a js_heap_scheme
     \<Rightarrow> TranslationLoadResponse notification \<times> 'a js_heap_scheme" where
  "request_pipe language source h =
     catchError_empty language
       (rx_shareReplay (rx_map (\<lambda>d. \<lparr>resp_lang = language, resp_data = d\<rparr>) source)) h"

text \<open>The parsed body of a response is a new object.\<close>

definition http_body ::
  "TranslationData notification \<Rightarrow> 'a js_heap_scheme \<Rightarrow> ref notification \<times> 'a js_heap_scheme" where
  "http_body outcome h =
     (case outcome of
        Next content \<Rightarrow> (case new_object content h of (r, h') \<Rightarrow> (Next r, h'))
      | Error e \<Rightarrow> (Error e, h))"

text \<open>
  The state of one instance built by \<open>initInstanceI18n\<close>: its signals and its request
  cache. A request is known by its position in \<open>http_requests\<close>, the pipelines built so
  far with the language and the URL each was built for; \<open>subscriptions\<close> are the
  subscribers waiting for a request's result, each with the language of its callback;
  \<open>callback_calls\<close> lists the calls of registered change callbacks. Console output is not
  part of the state.
\<close>

record I18nState = js_heap +
  storeLanguage :: "string \<rightharpoonup> ref"
  currentLanguage :: string
  supportedLanguages :: "string list"
  loadingStates :: "string \<rightharpoonup> bool"
  languageChangedCallbacks :: "nat list"
  fallbackLanguage :: string
  assetResourceUrl :: string
  translationRequestCache :: "string \<rightharpoonup> nat"
  http_requests :: "(string \<times> string) list"
  subscriptions :: "(nat \<times> string) list"
  callback_calls :: "nat list"

text \<open>The initial values of the signals and of the request cache.\<close>

definition new_I18nState :: I18nState where
  "new_I18nState =
     \<lparr>objects = (\<lambda>r. []), next_ref = 0,
      storeLanguage = Map.empty, currentLanguage = [], supportedLanguages = [],
      loadingStates = Map.empty, languageChangedCallbacks = [],
      fallbackLanguage = [], assetResourceUrl = [],
      translationRequestCache = Map.empty, http_requests = [], subscriptions = [],
      callback_calls = []\<rparr>"

definition setLoadingState :: "string \<Rightarrow> bool \<Rightarrow> I18nState \<Rightarrow> I18nState" where
  "setLoadingState language loading st =
     st\<lparr>loadingStates := (loadingStates st)(language \<mapsto> loading)\<rparr>"

text \<open>Every registered callback is called once, in order; what it throws is caught.\<close>

definition triggerLanguageChangedCallbacks :: "I18nState \<Rightarrow> I18nState" where
  "triggerLanguageChangedCallbacks st =
     st\<lparr>callback_calls := callback_calls st @ languageChangedCallbacks st\<rparr>"

text \<open>
  \<open>handleTranslationResponse\<close>. The second conjunct of its condition, \<^verbatim>\<open>&& data\<close>, holds
  for every object.
\<close>

definition handleTranslationResponse :: "TranslationLoadResponse \<Rightarrow> I18nState \<Rightarrow> I18nState" where
  "handleTranslationResponse response st =
     (let existingData = storeLanguage st (resp_lang response) in
      if isDifferentTranslateData (objects st) existingData (Some (resp_data response))
      then triggerLanguageChangedCallbacks
             (st\<lparr>storeLanguage := (storeLanguage st)(resp_lang response \<mapsto> resp_data response)\<rparr>)
      else st)"

definition getOrCreateTranslationRequest :: "string \<Rightarrow> I18nState \<Rightarrow> nat \<times> I18nState" where
  "getOrCreateTranslationRequest language st =
     (case translationRequestCache st language of
        Some request \<Rightarrow> (request, st)
      | None \<Rightarrow>
          (let url = assetResourceUrl st @ ''/'' @ language @ ''.json'';
               request = length (http_requests st)
           in (request,
               st\<lparr>http_requests := http_requests st @ [(language, url)],
                  translationRequestCache := (translationRequestCache st)(language \<mapsto> request)\<rparr>)))"

definition loadLanguageResource :: "string \<Rightarrow> I18nState \<Rightarrow> I18nState" where
  "loadLanguageResource language st =
     (if storeLanguage st language \<noteq> None then st
      else if loadingStates st language = Some True then st
      else (case getOrCreateTranslationRequest language (setLoadingState language True st) of
              (request, st') \<Rightarrow> st'\<lparr>subscriptions := subscriptions st' @ [(request, language)]\<rparr>))"

text \<open>
  What one subscriber of \<open>loadLanguageResource\<close> does with a notification of the request:
  its own \<open>catchError\<close>, then the callback
  \<^verbatim>\<open>result => { handleTranslationResponse(result); setLoadingState(lang, false); }\<close>.
\<close>

definition subscriber :: "string \<Rightarrow> TranslationLoadResponse notification \<Rightarrow> I18nState \<Rightarrow> I18nState" where
  "subscriber language n st =
     (case catchError_empty language n st of
        (Next result, st') \<Rightarrow> setLoadingState language False (handleTranslationResponse result st')
      | (Error e, st') \<Rightarrow> st')"

text \<open>
  The HTTP call of a request ends with \<open>outcome\<close>: the request's pipeline turns it into
  one notification, which every waiting subscriber of the request receives.
\<close>

definition respond :: "nat \<Rightarrow> TranslationData notification \<Rightarrow> I18nState \<Rightarrow> I18nState" where
  "respond request outcome st =
     (if request < length (http_requests st) \<and> request \<in> fst ` set (subscriptions st) then
        (case http_body outcome st of
           (source, st1) \<Rightarrow>
             (case request_pipe (fst (http_requests st ! request)) source st1 of
                (n, st2) \<Rightarrow>
                  fold (\<lambda>sub s. if fst sub = request then subscriber (snd sub) n s else s)
                    (subscriptions st2)
                    (st2\<lparr>subscriptions := filter (\<lambda>sub. fst sub \<noteq> request) (subscriptions st2)\<rparr>)))
      else st)"

text \<open>The synchronous \<open>get\<close> of the instance.\<close>

definition i18n_get ::
  "string \<Rightarrow> jsval list \<Rightarrow> I18nState \<Rightarrow> (string + translated) \<times> I18nState" where
  "i18n_get key values st =
     (case translateFn (currentLanguage st) (fallbackLanguage st) (storeLanguage st) key values
             (objects st) of
        (result, objs) \<Rightarrow> (result, st\<lparr>objects := objs\<rparr>))"

text \<open>
  The life of a session between its construction and \<open>dispose\<close>: load attempts and HTTP
  outcomes, in any order.
\<close>

datatype event = LoadLanguageResource string | Respond nat "TranslationData notification"

fun step :: "event \<Rightarrow> I18nState \<Rightarrow> I18nState" where
  "step (LoadLanguageResource language) st = loadLanguageResource language st"
| "step (Respond request outcome) st = respond request outcome st"

definition run :: "event list \<Rightarrow> I18nState \<Rightarrow> I18nState" where
  "run events st = fold step events st"

text \<open>The requests built so far for one language.\<close>

definition requests_for :: "string \<Rightarrow> I18nState \<Rightarrow> (string \<times> string) list" where
  "requests_for language st = filter (\<lambda>request. fst request = language) (http_requests st)"

text \<open>
  The requests built so far agree with the request cache: no two of them are for the
  same language, each of them is cached under its language, and the cache holds under a
  language the request built for it.
\<close>

definition requests_agree :: "(string \<times> string) list \<Rightarrow> (string \<rightharpoonup> nat) \<Rightarrow> bool" where
  "requests_agree requests cache =
     (distinct (map fst requests)
      \<and> fst ` set requests \<subseteq> dom cache
      \<and> (\<forall>l k. cache l = Some k \<longrightarrow> k < length requests \<and> fst (requests ! k) = l))"

section \<open>Loader, class variant (I18nTranslateImplement)\<close>

text \<open>
  The state of \<^verbatim>\<open>shareReplay(1)\<close> inside a request: not connected to the HTTP call (never
  subscribed, or reset by an error of the call), connected to a call that has not ended,
  or replaying the body of a call that succeeded.
\<close>

datatype share_state = NotConnected | Connected | Replaying ref

text \<open>
  The instance: its store, the record \<open>#translationRequests\<close> (its own properties), the
  requests built so far with the language and the URL each was built for, the state of
  \<open>shareReplay\<close> in each, the HTTP calls issued so far (each with its request), the
  request that the latest load of \<open>#translateLoadResource\<close> awaits (the resource takes
  the result of its latest load only), and the signal \<open>#eventLanguageLoaded\<close>.
\<close>

record ImplState = js_heap +
  impl_storeLanguage :: "string \<rightharpoonup> ref"
  impl_assetsUrl :: string
  translationRequests :: "string \<rightharpoonup> nat"
  impl_http_requests :: "(string \<times> string) list"
  shares :: "nat \<Rightarrow> share_state"
  http_calls :: "nat list"
  awaited :: "nat option"
  eventLanguageLoaded :: "string option"

definition new_ImplState :: "string \<Rightarrow> ImplState" where
  "new_ImplState url =
     \<lparr>objects = (\<lambda>r. []), next_ref = 0, impl_storeLanguage = Map.empty, impl_assetsUrl = url,
      translationRequests = Map.empty, impl_http_requests = [], shares = (\<lambda>request. NotConnected),
      http_calls = [], awaited = None, eventLanguageLoaded = None\<rparr>"

text \<open>
  \<open>#loadTranslateAssetResources\<close>: the pipeline on \<^verbatim>\<open>httpClient.get(url)\<close>, with
  \<open>shareReplay\<close> before \<open>map\<close>.
\<close>

definition loadTranslateAssetResources ::
  "string \<Rightarrow> ref notification \<Rightarrow> 'a js_heap_scheme
     \<Rightarrow> TranslationLoadResponse notification \<times> 'a js_heap_scheme" where
  "loadTranslateAssetResources language source h =
     catchError_empty language
       (rx_map (\<lambda>res. \<lparr>resp_lang = language, resp_data = res\<rparr>) (rx_shareReplay source)) h"

text \<open>
  The loader of \<open>#translateLoadResource\<close> up to the request it awaits:
  \<^verbatim>\<open>this.#translationRequests[lang] ??= this.#loadTranslateAssetResources(lang)\<close>. The
  record is a plain object: for a language named like a member of \<open>Object.prototype\<close> it
  reads as that member, so nothing is assigned, and \<open>firstValueFrom\<close> of the member
  rejects with a \<open>TypeError\<close>.
\<close>

definition translateLoadResource_loader :: "string \<Rightarrow> ImplState \<Rightarrow> (string + nat) \<times> ImplState" where
  "translateLoadResource_loader language st =
     (if language = [] then (Inl ''Invalid language request'', st)
      else (case translationRequests st language of
              Some request \<Rightarrow> (Inr request, st)
            | None \<Rightarrow>
                (case Object_prototype language of
                   Some member \<Rightarrow> (Inl ''TypeError'', st)
                 | None \<Rightarrow>
                     (let url = impl_assetsUrl st @ ''/'' @ language @ ''.json'';
                          request = length (impl_http_requests st)
                      in (Inr request,
                          st\<lparr>impl_http_requests := impl_http_requests st @ [(language, url)],
                             translationRequests :=
                               (translationRequests st)(language \<mapsto> request)\<rparr>)))))"

text \<open>
  \<open>#translateLoadResourceEffect\<close>, for a result of the resource (it returns at once while
  the resource has no value).
\<close>

definition translateLoadResourceEffect :: "TranslationLoadResponse \<Rightarrow> ImplState \<Rightarrow> ImplState" where
  "translateLoadResourceEffect result st =
     (let prevTranslate = impl_storeLanguage st (resp_lang result) in
      if isDifferentTranslateData (objects st) prevTranslate (Some (resp_data result))
      then st\<lparr>impl_storeLanguage := (impl_storeLanguage st)(resp_lang result \<mapsto> resp_data result),
              eventLanguageLoaded := Some (resp_lang result)\<rparr>
      else st)"

text \<open>
  The awaited request delivers: the load ends, and a value becomes the value of the
  resource, on which the effect runs.
\<close>

definition settle :: "TranslationLoadResponse notification \<times> ImplState \<Rightarrow> ImplState" where
  "settle delivered =
     (case delivered of
        (Next result, st) \<Rightarrow> translateLoadResourceEffect result (st\<lparr>awaited := None\<rparr>)
      | (Error error, st) \<Rightarrow> st\<lparr>awaited := None\<rparr>)"

text \<open>
  \<^verbatim>\<open>firstValueFrom(request)\<close> subscribes to the request. A request that is not connected
  issues its HTTP call; a connected one is joined; a replaying one delivers the body it
  holds.
\<close>

definition firstValueFrom :: "nat \<Rightarrow> ImplState \<Rightarrow> ImplState" where
  "firstValueFrom request st =
     (case shares st request of
        NotConnected \<Rightarrow>
          st\<lparr>http_calls := http_calls st @ [request],
             shares := (shares st)(request := Connected),
             awaited := Some request\<rparr>
      | Connected \<Rightarrow> st\<lparr>awaited := Some request\<rparr>
      | Replaying body \<Rightarrow>
          settle (loadTranslateAssetResources (fst (impl_http_requests st ! request)) (Next body) st))"

text \<open>A load attempt: the loader runs for the language.\<close>

definition impl_load :: "string \<Rightarrow> ImplState \<Rightarrow> ImplState" where
  "impl_load language st =
     (case translateLoadResource_loader language st of
        (Inl error, st') \<Rightarrow> st'\<lparr>awaited := None\<rparr>
      | (Inr request, st') \<Rightarrow> firstValueFrom request st')"

text \<open>
  The HTTP call of a connected request ends with \<open>outcome\<close>: \<open>shareReplay\<close> keeps the body
  of a call that succeeded and is reset by a call that failed, and the load that awaits
  the request receives what the pipeline makes of the outcome.
\<close>

definition impl_respond :: "nat \<Rightarrow> TranslationData notification \<Rightarrow> ImplState \<Rightarrow> ImplState" where
  "impl_respond request outcome st =
     (if request < length (impl_http_requests st) \<and> shares st request = Connected then
        (case http_body outcome st of
           (source, st1) \<Rightarrow>
             (let st2 = st1\<lparr>shares := (shares st1)
                          (request := (case source of
                                         Next body \<Rightarrow> Replaying body
                                       | Error error \<Rightarrow> NotConnected))\<rparr>
              in if awaited st2 = Some request
                 then settle (loadTranslateAssetResources
                                (fst (impl_http_requests st ! request)) source st2)
                 else st2))
      else st)"

datatype impl_event = ImplLoad string | ImplRespond nat "TranslationData notification"

fun impl_step :: "impl_event \<Rightarrow> ImplState \<Rightarrow> ImplState" where
  "impl_step (ImplLoad language) st = impl_load language st"
| "impl_step (ImplRespond request outcome) st = impl_respond request outcome st"

definition impl_run :: "impl_event list \<Rightarrow> ImplState \<Rightarrow> ImplState" where
  "impl_run events st = fold impl_step events st"

text \<open>The synchronous \<open>get\<close> of the instance, for its current and fallback language.\<close>

definition impl_get ::
  "string \<Rightarrow> string \<Rightarrow> string \<Rightarrow> jsval list \<Rightarrow> ImplState \<Rightarrow> (string + translated) \<times> ImplState" where
  "impl_get currentLang fallbackLang key values st =
     (case getTranslationText (impl_storeLanguage st) fallbackLang key currentLang values
             (objects st) of
        (result, objs) \<Rightarrow> (result, st\<lparr>objects := objs\<rparr>))"

section \<open>Reactive handles: with and without the translation cache\<close>

text \<open>
  \<^verbatim>\<open>JSON.stringify(values)\<close> on an array of the modelled values: \<open>undefined\<close> is
  written \<open>null\<close> inside an array, a string is quoted and escaped.
\<close>

definition hex_digit :: "nat \<Rightarrow> char" where
  "hex_digit n = ''0123456789abcdef'' ! (n mod 16)"

definition json_quote_char :: "char \<Rightarrow> string" where
  "json_quote_char c =
     (let n = (of_char c :: nat) in
      if c = CHR 0x22 then [CHR 0x5C, CHR 0x22]
      else if c = CHR 0x5C then [CHR 0x5C, CHR 0x5C]
      else if n = 8 then [CHR 0x5C, CHR ''b'']
      else if n = 9 then [CHR 0x5C, CHR ''t'']
      else if n = 10 then [CHR 0x5C, CHR ''n'']
      else if n = 12 then [CHR 0x5C, CHR ''f'']
      else if n = 13 then [CHR 0x5C, CHR ''r'']
      else if n < 32 then [CHR 0x5C, CHR ''u'', CHR ''0'', CHR ''0'', hex_digit (n div 16), hex_digit n]
      else [c])"

definition json_string :: "string \<Rightarrow> string" where
  "json_string s = CHR 0x22 # concat (map json_quote_char s) @ [CHR 0x22]"

fun json_value :: "jsval \<Rightarrow> string" where
  "json_value JUndefined = ''null''"
| "json_value JNull = ''null''"
| "json_value (JBool b) = (if b then ''true'' else ''false'')"
| "json_value (JNum n) = nat_to_string (unat n)"
| "json_value (JStr s) = json_string s"

fun join_commas :: "string list \<Rightarrow> string" where
  "join_commas [] = []"
| "join_commas [x] = x"
| "join_commas (x # y # ys) = x @ '','' @ join_commas (y # ys)"

definition JSON_stringify :: "jsval list \<Rightarrow> string" where
  "JSON_stringify values = ''['' @ join_commas (map json_value values) @ '']''"

text \<open>
  A signal built by \<^verbatim>\<open>computed(() => translateFn()(key, values))\<close> is a new object at
  every evaluation of that expression. The signals built so far are listed with the key
  and the arguments each closes over; a signal is known by its position in the list. An
  observable built by \<^verbatim>\<open>toObservable(signal).pipe(...)\<close> is listed with its signal.
\<close>

type_synonym signals = "(string \<times> jsval list) list"

text \<open>\<open>getSignal\<close> of translate-base.ts: a new computed at each call.\<close>

definition getSignal :: "string \<Rightarrow> jsval list \<Rightarrow> signals \<Rightarrow> nat \<times> signals" where
  "getSignal key values sigs = (length sigs, sigs @ [(key, values)])"

text \<open>\<open>createTranslationCache\<close>: the two caches, and the objects built through them.\<close>

record TranslationCache =
  signalCache :: "string \<rightharpoonup> nat"
  observableCache :: "string \<rightharpoonup> nat"
  computeds :: signals
  observables :: "nat list"


definition getCacheKey :: "string \<Rightarrow> jsval list \<Rightarrow> string" where
  "getCacheKey key values =
     (if length values > 0 then key @ '':'' @ JSON_stringify values else key)"

definition getCachedSignal :: "string \<Rightarrow> jsval list \<Rightarrow> TranslationCache \<Rightarrow> nat \<times> TranslationCache" where
  "getCachedSignal key values cache =
     (let cacheKey = getCacheKey key values in
      case signalCache cache cacheKey of
        Some signal \<Rightarrow> (signal, cache)
      | None \<Rightarrow>
          (case getSignal key values (computeds cache) of
             (signal, sigs) \<Rightarrow>
               (signal,
                cache\<lparr>computeds := sigs, signalCache := (signalCache cache)(cacheKey \<mapsto> signal)\<rparr>)))"


definition invalidateCache :: "TranslationCache \<Rightarrow> TranslationCache" where
  "invalidateCache cache = cache\<lparr>signalCache := Map.empty, observableCache := Map.empty\<rparr>"


section \<open>Singleton registries\<close>

text \<open>
  An injector either resolves the services the implementations ask it for
  (\<open>HttpClient\<close>, \<open>LocalStorageService\<close>) or throws when asked.
\<close>

datatype injector = Injector (resolves: bool)

record I18nTranslationConfig =
  assetsUrl :: string
  defaultLanguage :: "string option"
  fallbackLanguageConf :: "string option"
  languageSupported :: "string list"

subsection \<open>translate-hook: initializeI18nWithCustom, useI18nTranslate\<close>

record I18nConfig = I18nTranslationConfig +
  injector :: "injector option"

text \<open>
  A class that extends \<open>I18nTranslate\<close>: its name, the names of the classes it extends,
  and what its field initializers and its own constructor do after \<^verbatim>\<open>super(config)\<close>:
  throw (\<open>Some\<close> the message) or finish. This may depend on whether the class is
  instantiated inside an injection context of the framework (the first argument).
\<close>

record jsclass =
  class_name :: string
  superclasses :: "string list"
  constructor_body :: "bool \<Rightarrow> I18nConfig \<Rightarrow> string option"

record I18nInstance =
  instance_number :: nat
  instance_class :: jsclass
  instance_config :: I18nConfig

definition instanceof :: "I18nInstance \<Rightarrow> jsclass \<Rightarrow> bool" where
  "instanceof inst C =
     (class_name (instance_class inst) = class_name C
      \<or> class_name C \<in> set (superclasses (instance_class inst)))"

text \<open>
  \<^verbatim>\<open>new ImplementationClass(config)\<close>, evaluated inside an injection context or not: the
  constructor of the abstract class throws without an injector; then the field
  initializers and the body of the class's own constructor run.
\<close>

definition construct :: "bool \<Rightarrow> jsclass \<Rightarrow> I18nConfig \<Rightarrow> nat \<Rightarrow> string + I18nInstance" where
  "construct inInjectionContext C config n =
     (case injector config of
        None \<Rightarrow> Inl ''Injector not provider''
      | Some i \<Rightarrow>
          (case constructor_body C inInjectionContext config of
             Some message \<Rightarrow> Inl message
           | None \<Rightarrow> Inr \<lparr>instance_number = n, instance_class = C, instance_config = config\<rparr>))"

text \<open>
  \<open>I18nTranslateImplement\<close>: its field initializers call \<open>resource\<close> and \<open>effect\<close>, which
  throw (error NG0203) outside an injection context; then its constructor asks the
  injector for \<open>HttpClient\<close> and \<open>LocalStorageService\<close>.
\<close>

definition I18nTranslateImplement :: jsclass where
  "I18nTranslateImplement =
     \<lparr>class_name = ''I18nTranslateImplement'', superclasses = [''I18nTranslate''],
      constructor_body =
        (\<lambda>inInjectionContext config.
           if \<not> inInjectionContext then Some ''NG0203''
           else (case injector config of
                   Some (Injector True) \<Rightarrow> None
                 | _ \<Rightarrow> Some ''NullInjectorError''))\<rparr>"

text \<open>
  The module-level variables, with the number of instances constructed so far and the
  console warnings. The first argument of \<open>initializeI18nWithCustom\<close> says whether it is
  called inside an injection context.
\<close>

record HookRegistry =
  translateInstance :: "I18nInstance option"
  isInitialized :: bool
  hook_constructed :: nat
  hook_warnings :: "string list"

definition new_HookRegistry :: HookRegistry where
  "new_HookRegistry =
     \<lparr>translateInstance = None, isInitialized = False, hook_constructed = 0, hook_warnings = []\<rparr>"

definition initializeI18nWithCustom ::
  "bool \<Rightarrow> jsclass \<Rightarrow> I18nConfig \<Rightarrow> HookRegistry \<Rightarrow> (string + I18nInstance) \<times> HookRegistry" where
  "initializeI18nWithCustom inInjectionContext ImplementationClass config reg =
     (if isInitialized reg then
        (let reg' = reg\<lparr>hook_warnings := hook_warnings reg @ [''[I18n] Already initialized'']\<rparr> in
         case translateInstance reg of
           Some inst \<Rightarrow>
             if instanceof inst ImplementationClass then (Inr inst, reg')
             else (Inl ''[I18n] Cannot reinitialize with different implementation type'', reg')
         | None \<Rightarrow> (Inl ''[I18n] Cannot reinitialize with different implementation type'', reg'))
      else
        (case construct inInjectionContext ImplementationClass config (hook_constructed reg) of
           Inl message \<Rightarrow> (Inl message, reg)
         | Inr inst \<Rightarrow>
             (Inr inst,
              reg\<lparr>translateInstance := Some inst, isInitialized := True,
                  hook_constructed := Suc (hook_constructed reg)\<rparr>)))"

definition hook_initializeI18n ::
  "bool \<Rightarrow> I18nConfig \<Rightarrow> HookRegistry \<Rightarrow> (string + I18nInstance) \<times> HookRegistry" where
  "hook_initializeI18n inInjectionContext config reg =
     initializeI18nWithCustom inInjectionContext I18nTranslateImplement config reg"

definition useI18nTranslate :: "HookRegistry \<Rightarrow> string + I18nInstance" where
  "useI18nTranslate reg =
     (if isInitialized reg then
        (case translateInstance reg of
           None \<Rightarrow> Inl ''[I18n] Must call initializeI18n() first''
         | Some inst \<Rightarrow> Inr inst)
      else Inl ''[I18n] Must call initializeI18n() first'')"

subsection \<open>translate-base.ts: initializeI18n, getInstanceI18n\<close>

record I18nLanguageConfigure =
  conf_injector :: "injector option"
  translationConfig :: "I18nTranslationConfig option"

record I18nTranslateObject =
  object_number :: nat
  object_configure :: I18nLanguageConfigure

text \<open>
  \<open>initInstanceI18n\<close> as the registry sees it: it throws when the injector does not
  resolve the services, and returns a new instance otherwise.
\<close>

definition initInstanceI18n :: "I18nLanguageConfigure \<Rightarrow> nat \<Rightarrow> string + I18nTranslateObject" where
  "initInstanceI18n configure n =
     (case conf_injector configure of
        Some (Injector True) \<Rightarrow> Inr \<lparr>object_number = n, object_configure = configure\<rparr>
      | _ \<Rightarrow> Inl ''NullInjectorError'')"

record GlobalRegistry =
  instanceI18nGlobal :: "I18nTranslateObject option"
  isInitializedFlag :: bool
  global_constructed :: nat
  global_warnings :: "string list"

definition new_GlobalRegistry :: GlobalRegistry where
  "new_GlobalRegistry =
     \<lparr>instanceI18nGlobal = None, isInitializedFlag = False, global_constructed = 0,
      global_warnings = []\<rparr>"

text \<open>
  \<open>initializeI18n\<close>. The result is the error thrown, or the value returned: an instance,
  or \<open>None\<close> for the \<^verbatim>\<open>null\<close> that \<^verbatim>\<open>instanceI18nGlobal!\<close> would be without an instance.
\<close>

definition initializeI18n ::
  "I18nLanguageConfigure \<Rightarrow> GlobalRegistry
     \<Rightarrow> (string + I18nTranslateObject option) \<times> GlobalRegistry" where
  "initializeI18n configure g =
     (if conf_injector configure = None
      then (Inl ''[I18n] Missing Angular injector in configuration'', g)
      else if isInitializedFlag g
      then (Inr (instanceI18nGlobal g),
            g\<lparr>global_warnings :=
                global_warnings g @ [''[I18n] Already initialized, returning existing instance'']\<rparr>)
      else
        (case initInstanceI18n configure (global_constructed g) of
           Inr inst \<Rightarrow>
             (Inr (Some inst),
              g\<lparr>isInitializedFlag := True, instanceI18nGlobal := Some inst,
                global_constructed := Suc (global_constructed g)\<rparr>)
         | Inl error \<Rightarrow>
             (Inl error, g\<lparr>isInitializedFlag := False, instanceI18nGlobal := None\<rparr>)))"

definition getInstanceI18n :: "GlobalRegistry \<Rightarrow> string + I18nTranslateObject" where
  "getInstanceI18n g =
     (case instanceI18nGlobal g of
        None \<Rightarrow> Inl ''[I18n] Must call initializeI18n() first''
      | Some inst \<Rightarrow> Inr inst)"

section \<open>Examples\<close>

text \<open>
  A store with a bundle for \<open>vi\<close> (object 0) and a bundle for \<open>en\<close> (object 1), a
  session, a run of it in which the file of \<open>vi\<close> fails to load, and configurations
  for the registries; used to evaluate the definitions on concrete inputs.
\<close>

definition ex_store :: "string \<rightharpoonup> ref" where
  "ex_store = [''vi'' \<mapsto> 0, ''en'' \<mapsto> 1]"

definition ex_objects :: "TranslationData \<Rightarrow> TranslationData \<Rightarrow> ref \<Rightarrow> TranslationData" where
  "ex_objects vi en = (\<lambda>r. [])(0 := vi, 1 := en)"

definition ex_state :: I18nState where
  "ex_state = new_I18nState\<lparr>currentLanguage := ''vi'', fallbackLanguage := ''en'',
     assetResourceUrl := ''/i18n'', languageChangedCallbacks := [7]\<rparr>"

definition ex_events :: "event list" where
  "ex_events = [LoadLanguageResource ''vi'', LoadLanguageResource ''vi'', Respond 0 (Error ''404''),
     LoadLanguageResource ''vi'', LoadLanguageResource ''en'', LoadLanguageResource ''vi'']"

text \<open>
  The class variant: the file of \<open>vi\<close> fails to load, then the language is switched to
  \<open>en\<close>.
\<close>

definition ex_impl_events :: "impl_event list" where
  "ex_impl_events = [ImplLoad ''vi'', ImplRespond 0 (Error ''404''), ImplLoad ''en'']"

definition ex_config :: I18nConfig where
  "ex_config = \<lparr>assetsUrl = ''/i18n'', defaultLanguage = Some ''en'', fallbackLanguageConf = Some ''en'',
     languageSupported = [''en'', ''vi''], injector = Some (Injector True)\<rparr>"

definition ex_custom_class :: jsclass where
  "ex_custom_class = \<lparr>class_name = ''CustomTranslate'', superclasses = [''I18nTranslate''],
     constructor_body = (\<lambda>inInjectionContext config. None)\<rparr>"

definition ex_configure :: "injector option \<Rightarrow> I18nLanguageConfigure" where
  "ex_configure i = \<lparr>conf_injector = i, translationConfig = None\<rparr>"

section \<open>Template rendering\<close>

subsection \<open>The compiler as a scan of the template\<close>

lemma match_placeholder_Some:
  assumes "match_placeholder s = Some (p, after)"
  shows "s = ''{{'' @ p @ ''}}'' @ after" and "p \<noteq> []" and "list_all is_digit p"
proof -
  from assms obtain c1 c2 rest where s: "s = c1 # c2 # rest"
    by (auto simp: match_placeholder_def split: list.splits)
  from assms s have b: "c1 = CHR ''{''" "c2 = CHR ''{''"
    by (auto simp: match_placeholder_def split: list.splits if_splits)
  from assms s b obtain d1 d2 where d: "dropWhile is_digit rest = d1 # d2 # after"
    by (auto simp: match_placeholder_def split: list.splits if_splits)
  from assms s b d have e: "d1 = CHR ''}''" "d2 = CHR ''}''" "takeWhile is_digit rest = p" "p \<noteq> []"
    by (auto simp: match_placeholder_def split: if_splits)
  have "rest = takeWhile is_digit rest @ dropWhile is_digit rest"
    by simp
  with d e have "rest = p @ ''}}'' @ after"
    by simp
  with s b show "s = ''{{'' @ p @ ''}}'' @ after"
    by simp
  from e show "p \<noteq> []" by simp
  have "\<forall>x\<in>set (takeWhile is_digit rest). is_digit x"
    by (auto dest: set_takeWhileD)
  with e show "list_all is_digit p"
    by (simp add: list_all_iff)
qed

lemma match_placeholder_single:
  assumes "ds \<noteq> []" and "list_all is_digit ds"
  shows "match_placeholder (''{{'' @ ds @ ''}}'' @ after) = Some (ds, after)"
proof -
  have nd: "\<not> is_digit CHR ''}''"
    by (simp add: is_digit_def)
  have all: "\<forall>x\<in>set ds. is_digit x"
    using assms(2) by (simp add: list_all_iff)
  have t: "takeWhile is_digit (ds @ ''}}'' @ after) = ds"
    using all nd by (simp add: takeWhile_append2)
  have d: "dropWhile is_digit (ds @ ''}}'' @ after) = ''}}'' @ after"
    using all nd by (simp add: dropWhile_append2)
  show ?thesis
    using assms(1) t d by (simp add: match_placeholder_def)
qed

lemma fold_compile_scan:
  assumes "template = pre @ s" and "length pre = off" and "lastIndex \<le> off"
  shows "(case fold (compile_callback template) (regex_matches off s) (segs, phs, lastIndex) of
            (S, P, L) \<Rightarrow> (S @ [drop L template], P))
       = (case scan_template (drop lastIndex pre) s of (S', P') \<Rightarrow> (segs @ S', phs @ P'))"
  using assms
proof (induction off s arbitrary: pre segs phs lastIndex rule: regex_matches.induct)
  case (1 offset)
  then show ?case by simp
next
  case (2 offset c cs)
  show ?case
  proof (cases "match_placeholder (c # cs)")
    case None
    have t: "template = (pre @ [c]) @ cs" and l: "length (pre @ [c]) = Suc offset"
      and b: "lastIndex \<le> Suc offset"
      using "2.prems" by simp_all
    have d: "drop lastIndex (pre @ [c]) = drop lastIndex pre @ [c]"
      using "2.prems" by simp
    from "2.IH"(1) [OF None t l b, of segs phs] None d show ?thesis
      by simp
  next
    case (Some m)
    obtain p after where m: "m = (p, after)" by (cases m)
    define mt where "mt = ''{{'' @ p @ ''}}''"
    from Some m have cs: "c # cs = mt @ after"
      unfolding mt_def using match_placeholder_Some(1) [of "c # cs" p after] by simp
    have t: "template = (pre @ mt) @ after"
      using "2.prems"(1) cs by simp
    have l: "length (pre @ mt) = offset + length (''{{'' @ p @ ''}}'')"
      using "2.prems"(2) by (simp add: mt_def)
    have rm: "regex_matches offset (c # cs)
                = (mt, p, offset) # regex_matches (offset + length mt) after"
      using Some m by (simp add: mt_def)
    have cb: "compile_callback template (mt, p, offset) (segs, phs, lastIndex)
                = (segs @ [drop lastIndex pre], phs @ [p], offset + length mt)"
      using "2.prems" by (simp add: compile_callback_def string_slice_def)
    have sc: "scan_template (drop lastIndex pre) (c # cs)
                = (case scan_template [] after of
                     (S, P) \<Rightarrow> (drop lastIndex pre # S, p # P))"
      using Some m by simp
    have dr: "drop (offset + length mt) (pre @ mt) = []"
      using "2.prems"(2) by simp
    have ih: "(case fold (compile_callback template)
                      (regex_matches (offset + length mt) after)
                      (segs @ [drop lastIndex pre], phs @ [p], offset + length mt) of
                 (S, P, L) \<Rightarrow> (S @ [drop L template], P))
            = (case scan_template [] after of
                 (S', P') \<Rightarrow> ((segs @ [drop lastIndex pre]) @ S', (phs @ [p]) @ P'))"
      using "2.IH"(2) [OF Some m [symmetric] t l order_refl,
                        of "segs @ [drop lastIndex pre]" "phs @ [p]"] dr
      by (simp add: mt_def)
    show ?thesis
      unfolding rm sc fold_simps o_apply cb ih
      by (simp split: prod.splits)
  qed
qed

lemma compile_by_scan: "compileTemplateFunction template = scan_template [] template"
  using fold_compile_scan [of template "[]" template 0 0 "[]" "[]"]
  by (simp add: compileTemplateFunction_def split: prod.splits)

subsection \<open>Segments, placeholders and substitutions\<close>

lemma match_placeholder_extend:
  assumes "match_placeholder s = Some (p, after)"
  shows "match_placeholder (s @ t) = Some (p, after @ t)"
  using match_placeholder_Some [OF assms] match_placeholder_single [of p "after @ t"]
  by simp

lemma scan_template_shape:
  assumes "scan_template lit s = (segments, placeholders)"
  shows "length segments = Suc (length placeholders)
       \<and> list_all (\<lambda>p. p \<noteq> [] \<and> list_all is_digit p) placeholders
       \<and> lit @ s = interleave segments (map (\<lambda>p. ''{{'' @ p @ ''}}'') placeholders)"
  using assms
proof (induction lit s arbitrary: segments placeholders rule: scan_template.induct)
  case (1 lit)
  then show ?case by auto
next
  case (2 lit c cs)
  show ?case
  proof (cases "match_placeholder (c # cs)")
    case None
    with "2.prems" have "scan_template (lit @ [c]) cs = (segments, placeholders)"
      by simp
    from "2.IH"(1) [OF None this] show ?thesis
      by simp
  next
    case (Some m)
    obtain p after where m: "m = (p, after)" by (cases m)
    obtain S P where sp: "scan_template [] after = (S, P)"
      by (cases "scan_template [] after")
    from "2.prems" Some m sp have r: "segments = lit # S" "placeholders = p # P"
      by simp_all
    from Some m have cs: "c # cs = ''{{'' @ p @ ''}}'' @ after"
      and p: "p \<noteq> []" "list_all is_digit p"
      using match_placeholder_Some [of "c # cs" p after] by simp_all
    from "2.IH"(2) [OF Some m [symmetric] sp] have ih:
      "length S = Suc (length P)"
      "list_all (\<lambda>p. p \<noteq> [] \<and> list_all is_digit p) P"
      "after = interleave S (map (\<lambda>p. ''{{'' @ p @ ''}}'') P)"
      by simp_all
    have "lit @ c # cs = lit @ (''{{'' @ p @ ''}}'') @ after"
      using cs by simp
    also have "\<dots> = interleave segments (map (\<lambda>p. ''{{'' @ p @ ''}}'') placeholders)"
      using r ih(3) by simp
    finally show ?thesis
      using r ih(1,2) p by simp
  qed
qed

lemma scan_template_segments:
  assumes "scan_template lit s = (segments, placeholders)"
      and "\<forall>i<length lit. match_placeholder (drop i lit @ s) = None"
  shows "\<forall>seg\<in>set segments. \<forall>i<length seg. match_placeholder (drop i seg) = None"
  using assms
proof (induction lit s arbitrary: segments placeholders rule: scan_template.induct)
  case (1 lit)
  then show ?case by auto
next
  case (2 lit c cs)
  show ?case
  proof (cases "match_placeholder (c # cs)")
    case None
    with "2.prems" have sc: "scan_template (lit @ [c]) cs = (segments, placeholders)"
      by simp
    have "\<forall>i<length (lit @ [c]). match_placeholder (drop i (lit @ [c]) @ cs) = None"
    proof (intro allI impI)
      fix i assume "i < length (lit @ [c])"
      then consider "i < length lit" | "i = length lit" by fastforce
      then show "match_placeholder (drop i (lit @ [c]) @ cs) = None"
      proof cases
        case 1
        with "2.prems"(2) show ?thesis by simp
      next
        case 2
        with None show ?thesis by simp
      qed
    qed
    from "2.IH"(1) [OF None sc this] show ?thesis .
  next
    case (Some m)
    obtain p after where m: "m = (p, after)" by (cases m)
    obtain S P where sp: "scan_template [] after = (S, P)"
      by (cases "scan_template [] after")
    from "2.prems" Some m sp have r: "segments = lit # S"
      by simp
    have ih: "\<forall>seg\<in>set S. \<forall>i<length seg. match_placeholder (drop i seg) = None"
      using "2.IH"(2) [OF Some m [symmetric] sp] by simp
    have "\<forall>i<length lit. match_placeholder (drop i lit) = None"
    proof (intro allI impI)
      fix i assume i: "i < length lit"
      show "match_placeholder (drop i lit) = None"
      proof (cases "match_placeholder (drop i lit)")
        case None
        then show ?thesis .
      next
        case (Some q)
        obtain a b where "q = (a, b)" by (cases q)
        with Some have "match_placeholder (drop i lit @ c # cs) = Some (a, b @ c # cs)"
          using match_placeholder_extend by simp
        with "2.prems"(2) i show ?thesis by simp
      qed
    qed
    with r ih show ?thesis by simp
  qed
qed

lemma interpolated_placeholder:
  assumes "p \<noteq> []"
  shows "interpolated (Some p) values =
           (if js_array_get values (Some p) = JUndefined \<or> js_array_get values (Some p) = JNull
            then ''{{'' @ p @ ''}}'' else js_String (js_array_get values (Some p)))"
  using assms by (auto simp: interpolated_def Let_def)

lemma interpolated_undefined: "interpolated None values = []"
  by (simp add: interpolated_def js_array_get_def)

lemma reduce_segments_interleave:
  assumes "length segs = Suc (length P - index)" and "index \<le> length P"
      and "list_all (\<lambda>p. p \<noteq> []) P"
  shows "reduce_segments segs P values index prev =
           prev @ interleave segs (map (\<lambda>p. interpolated (Some p) values) (drop index P))"
  using assms
proof (induction segs arbitrary: index prev)
  case Nil
  then show ?case by simp
next
  case (Cons s segs)
  show ?case
  proof (cases segs)
    case Nil
    with Cons.prems have "index = length P" by simp
    with Nil show ?thesis
      by (simp add: js_nth_def interpolated_undefined)
  next
    case (Cons s' rest)
    with Cons.prems have i: "index < length P" by simp
    then have d: "drop index P = P ! index # drop (Suc index) P"
      by (simp add: Cons_nth_drop_Suc)
    have l: "length segs = Suc (length P - Suc index)"
      using Cons.prems(1) i by simp
    have "reduce_segments (s # segs) P values index prev
            = reduce_segments segs P values (Suc index)
                (prev @ s @ interpolated (Some (P ! index)) values)"
      using i by (simp add: js_nth_def)
    also have "\<dots> = (prev @ s @ interpolated (Some (P ! index)) values)
                      @ interleave segs (map (\<lambda>p. interpolated (Some p) values) (drop (Suc index) P))"
      using Cons.IH [OF l _ Cons.prems(3)] i by simp
    finally show ?thesis
      using d by simp
  qed
qed

lemma digit_value_digit_char: "k < 10 \<Longrightarrow> digit_value (digit_char k) = k"
proof -
  assume "k < 10"
  then have "k = 0 \<or> k = 1 \<or> k = 2 \<or> k = 3 \<or> k = 4 \<or> k = 5 \<or> k = 6 \<or> k = 7 \<or> k = 8 \<or> k = 9"
    by arith
  then show ?thesis
    unfolding digit_value_def digit_char_def by (elim disjE) simp_all
qed

lemma is_digit_digit_char: "is_digit (digit_char k)"
proof -
  have "k mod 10 < 10" by simp
  then have "k mod 10 = 0 \<or> k mod 10 = 1 \<or> k mod 10 = 2 \<or> k mod 10 = 3 \<or> k mod 10 = 4
      \<or> k mod 10 = 5 \<or> k mod 10 = 6 \<or> k mod 10 = 7 \<or> k mod 10 = 8 \<or> k mod 10 = 9"
    by arith
  then show ?thesis
    unfolding is_digit_def digit_char_def by (elim disjE) simp_all
qed

lemma digit_char_zero: "k < 10 \<Longrightarrow> (digit_char k = CHR ''0'') = (k = 0)"
proof -
  assume "k < 10"
  then have "k = 0 \<or> k = 1 \<or> k = 2 \<or> k = 3 \<or> k = 4 \<or> k = 5 \<or> k = 6 \<or> k = 7 \<or> k = 8 \<or> k = 9"
    by arith
  then show ?thesis
    unfolding digit_char_def by (elim disjE) simp_all
qed

lemma nat_to_string_nonempty: "nat_to_string n \<noteq> []"
  by (subst nat_to_string.simps) simp

lemma nat_to_string_digits: "list_all is_digit (nat_to_string n)"
  by (induction n rule: nat_to_string.induct)
     (subst nat_to_string.simps, simp add: is_digit_digit_char)

lemma digits_to_nat_snoc: "digits_to_nat (ds @ [c]) = 10 * digits_to_nat ds + digit_value c"
  by (simp add: digits_to_nat_def)

lemma digits_to_nat_nat_to_string: "digits_to_nat (nat_to_string n) = n"
proof (induction n rule: nat_to_string.induct)
  case (1 n)
  show ?case
  proof (cases "n < 10")
    case True
    then have "nat_to_string n = [digit_char n]"
      by (subst nat_to_string.simps) simp
    with True show ?thesis
      by (simp add: digits_to_nat_def digit_value_digit_char)
  next
    case False
    then have "nat_to_string n = nat_to_string (n div 10) @ [digit_char (n mod 10)]"
      by (subst nat_to_string.simps) simp
    with "1.IH" [OF False] show ?thesis
      by (simp add: digits_to_nat_snoc digit_value_digit_char)
  qed
qed

lemma nat_to_string_canonical: "hd (nat_to_string n) = CHR ''0'' \<Longrightarrow> nat_to_string n = ''0''"
proof (induction n rule: nat_to_string.induct)
  case (1 n)
  show ?case
  proof (cases "n < 10")
    case True
    then have s: "nat_to_string n = [digit_char n]"
      by (subst nat_to_string.simps) simp
    with "1.prems" True have "n = 0"
      by (simp add: digit_char_zero)
    with s show ?thesis
      by (simp add: digit_char_def)
  next
    case False
    then have s: "nat_to_string n = nat_to_string (n div 10) @ [digit_char (n mod 10)]"
      by (subst nat_to_string.simps) simp
    with "1.prems" have "hd (nat_to_string (n div 10)) = CHR ''0''"
      by (simp add: nat_to_string_nonempty)
    from "1.IH" [OF False this] have "digits_to_nat (nat_to_string (n div 10)) = 0"
      by (simp add: digits_to_nat_def digit_value_def)
    then have "n div 10 = 0"
      by (simp only: digits_to_nat_nat_to_string)
    with False show ?thesis by simp
  qed
qed

lemma array_index_nat_to_string: "array_index (nat_to_string n) = Some n"
proof -
  have "nat_to_string n = ''0'' \<or> hd (nat_to_string n) \<noteq> CHR ''0''"
    using nat_to_string_canonical by blast
  then show ?thesis
    by (simp add: array_index_def nat_to_string_nonempty nat_to_string_digits
          digits_to_nat_nat_to_string)
qed

lemma js_array_get_index:
  "js_array_get values (Some (nat_to_string n)) = (if n < length values then values ! n else JUndefined)"
  by (simp add: js_array_get_def array_index_nat_to_string)

lemma js_array_get_leading_zero:
  "hd p = CHR ''0'' \<Longrightarrow> p \<noteq> ''0'' \<Longrightarrow> js_array_get values (Some p) = JUndefined"
  by (simp add: js_array_get_def array_index_def)

lemma render_interleave:
  assumes "compileTemplateFunction template = (segments, placeholders)"
  shows "render template values =
           interleave segments (map (\<lambda>p. interpolated (Some p) values) placeholders)"
proof -
  from assms have sc: "scan_template [] template = (segments, placeholders)"
    by (simp add: compile_by_scan)
  from scan_template_shape [OF sc] have
    l: "length segments = Suc (length placeholders - 0)"
    and p: "list_all (\<lambda>p. p \<noteq> []) placeholders"
    by (simp_all add: list_all_iff)
  from reduce_segments_interleave [OF l _ p, of "values" "[]"] assms show ?thesis
    by (simp add: render_def taggedTemplate_def)
qed

text \<open>
  Claim C2, as amended. \<open>compileTemplateFunction\<close> cuts every template into its
  placeholders, each a non-empty run of digits, and the text segments around them: one
  segment more than placeholders, no segment with a placeholder in it, and the template
  is the segments with the placeholders' texts \<open>{{digits}}\<close> between them. Rendering
  keeps the segments and puts in the place of each placeholder, wherever it stands and
  however many there are: \<open>String\<close> of its argument when the argument is present and
  neither \<open>null\<close> nor \<open>undefined\<close>, and otherwise the placeholder's own text
  \<open>{{digits}}\<close>, for index 0 as for every other index (the index that the compiler keeps
  is the captured string, and the string \<open>0\<close> is truthy). The compiled function of the
  template renders the same. The argument of the placeholder with the decimal numeral of
  \<open>i\<close> is element \<open>i\<close> of the argument list, absent when \<open>i\<close> is out of range; digits
  with a leading zero address no argument.
\<close>

theorem missing_argument_policy:
  "compileTemplateFunction template = (segments, placeholders) \<longrightarrow>
     length segments = Suc (length placeholders)
   \<and> list_all (\<lambda>p. p \<noteq> [] \<and> list_all is_digit p) placeholders
   \<and> list_all (\<lambda>segment. list_all (\<lambda>i. match_placeholder (drop i segment) = None)
                  [0..<length segment]) segments
   \<and> template = interleave segments (map (\<lambda>p. ''{{'' @ p @ ''}}'') placeholders)
   \<and> render template values =
       interleave segments
         (map (\<lambda>p. if js_array_get values (Some p) = JUndefined
                      \<or> js_array_get values (Some p) = JNull
                   then ''{{'' @ p @ ''}}''
                   else js_String (js_array_get values (Some p))) placeholders)
   \<and> taggedTemplate segments placeholders values = render template values
   \<and> js_array_get values (Some (nat_to_string i)) =
       (if i < length values then values ! i else JUndefined)
   \<and> (hd d = CHR ''0'' \<and> d \<noteq> ''0'' \<longrightarrow> js_array_get values (Some d) = JUndefined)"
proof (intro impI)
  assume c: "compileTemplateFunction template = (segments, placeholders)"
  then have sc: "scan_template [] template = (segments, placeholders)"
    by (simp add: compile_by_scan)
  note shape = scan_template_shape [OF sc]
  have seg: "list_all (\<lambda>segment. list_all (\<lambda>i. match_placeholder (drop i segment) = None)
                  [0..<length segment]) segments"
    using scan_template_segments [OF sc] by (simp add: list_all_iff)
  have ne: "\<forall>p\<in>set placeholders. p \<noteq> []"
    using shape by (simp add: list_all_iff)
  have "map (\<lambda>p. interpolated (Some p) values) placeholders =
        map (\<lambda>p. if js_array_get values (Some p) = JUndefined
                      \<or> js_array_get values (Some p) = JNull
                   then ''{{'' @ p @ ''}}''
                   else js_String (js_array_get values (Some p))) placeholders"
    using ne by (intro map_cong refl) (simp add: interpolated_placeholder)
  with render_interleave [OF c, of "values"] have r: "render template values =
       interleave segments
         (map (\<lambda>p. if js_array_get values (Some p) = JUndefined
                      \<or> js_array_get values (Some p) = JNull
                   then ''{{'' @ p @ ''}}''
                   else js_String (js_array_get values (Some p))) placeholders)"
    by simp
  have t: "taggedTemplate segments placeholders values = render template values"
    using c by (simp add: render_def)
  show "length segments = Suc (length placeholders)
   \<and> list_all (\<lambda>p. p \<noteq> [] \<and> list_all is_digit p) placeholders
   \<and> list_all (\<lambda>segment. list_all (\<lambda>i. match_placeholder (drop i segment) = None)
                  [0..<length segment]) segments
   \<and> template = interleave segments (map (\<lambda>p. ''{{'' @ p @ ''}}'') placeholders)
   \<and> render template values =
       interleave segments
         (map (\<lambda>p. if js_array_get values (Some p) = JUndefined
                      \<or> js_array_get values (Some p) = JNull
                   then ''{{'' @ p @ ''}}''
                   else js_String (js_array_get values (Some p))) placeholders)
   \<and> taggedTemplate segments placeholders values = render template values
   \<and> js_array_get values (Some (nat_to_string i)) =
       (if i < length values then values ! i else JUndefined)
   \<and> (hd d = CHR ''0'' \<and> d \<noteq> ''0'' \<longrightarrow> js_array_get values (Some d) = JUndefined)"
    using shape seg r t js_array_get_index [of "values" i] js_array_get_leading_zero [of d "values"]
    by simp
qed

text \<open>
  The amended policy at a template with text around five placeholders and a pair of
  braces that is no placeholder: the arguments 0 and 2 are present, argument 1 is
  \<open>null\<close>, argument 3 is out of range, and \<open>00\<close> addresses no argument.
\<close>

theorem missing_argument_policy_witness:
  "compileTemplateFunction ''Hi {{0}}, {{1}} of {{2}} and {{3}}, {{00}} {{x}}''
     = ([''Hi '', '', '', '' of '', '' and '', '', '', '' {{x}}''], [''0'', ''1'', ''2'', ''3'', ''00''])
 \<and> render ''Hi {{0}}, {{1}} of {{2}} and {{3}}, {{00}} {{x}}'' [JStr ''Ann'', JNull, JNum 7]
     = ''Hi Ann, {{1}} of 7 and {{3}}, {{00}} {{x}}''
 \<and> js_array_get [JStr ''Ann'', JNull, JNum 7] (Some ''2'') = JNum 7
 \<and> hd ''00'' = CHR ''0'' \<and> ''00'' \<noteq> ''0''
 \<and> js_array_get [JStr ''Ann'', JNull, JNum 7] (Some ''00'') = JUndefined"
proof -
  have c: "compileTemplateFunction ''Hi {{0}}, {{1}} of {{2}} and {{3}}, {{00}} {{x}}''
     = ([''Hi '', '', '', '' of '', '' and '', '', '', '' {{x}}''], [''0'', ''1'', ''2'', ''3'', ''00''])"
    by code_simp
  have n: "nat_to_string 2 = ''2''" "nat_to_string 7 = ''7''"
    by (simp_all add: nat_to_string.simps digit_char_def)
  have g: "js_array_get [JStr ''Ann'', JNull, JNum 7] (Some ''0'') = JStr ''Ann''"
          "js_array_get [JStr ''Ann'', JNull, JNum 7] (Some ''1'') = JNull"
          "js_array_get [JStr ''Ann'', JNull, JNum 7] (Some ''2'') = JNum 7"
          "js_array_get [JStr ''Ann'', JNull, JNum 7] (Some ''3'') = JUndefined"
          "js_array_get [JStr ''Ann'', JNull, JNum 7] (Some ''00'') = JUndefined"
    by (simp_all add: js_array_get_def array_index_def is_digit_def digits_to_nat_def
          digit_value_def)
  show ?thesis
    using missing_argument_policy
            [of "''Hi {{0}}, {{1}} of {{2}} and {{3}}, {{00}} {{x}}''"
                "[''Hi '', '', '', '' of '', '' and '', '', '', '' {{x}}'']"
                "[''0'', ''1'', ''2'', ''3'', ''00'']"
                "[JStr ''Ann'', JNull, JNum 7]" 2 "''00''"]
          c
    by (simp add: n g)
qed

text \<open>
  Claim C2 as stated fails: the template \<open>{{0}}\<close> rendered with no arguments is not the
  empty string.
\<close>

theorem zero_index_not_empty_counterexample:
  "render ''{{0}}'' [] = ''{{0}}'' \<and> render ''{{0}}'' [] \<noteq> []"
  by (simp add: render_def compileTemplateFunction_def match_placeholder_def is_digit_def
        compile_callback_def string_slice_def taggedTemplate_def js_nth_def interpolated_def
        js_array_get_def array_index_def digits_to_nat_def digit_value_def)

section \<open>Resolution\<close>

lemma tryGetTranslate_absent:
  assumes "bundle_entry store objs language key = None" and "Object_prototype key = None"
  shows "tryGetTranslate key language values store objs =
           (if store language = None then Inr RNull else Inr (RText key), objs)"
  using assms
  by (auto simp: tryGetTranslate_def bundle_entry_def split: option.splits)

lemma tryGetTranslate_present:
  assumes "bundle_entry store objs language key = Some entry"
  shows "fst (tryGetTranslate key language values store objs)
           = Inr (RText (rendering entry key values))"
  using assms
  by (cases entry)
     (auto simp: tryGetTranslate_def bundle_entry_def render_def
           split: option.splits prod.splits)

lemma resolveTranslation_absent:
  assumes "bundle_entry store objs language key = None" and "Object_prototype key = None"
  shows "resolveTranslation key language values store objs = (Inr (RText key), objs)"
  using tryGetTranslate_absent [OF assms, of "values"]
  by (auto simp: resolveTranslation_def split: option.splits)

lemma resolveTranslation_present:
  assumes "bundle_entry store objs language key = Some entry"
  shows "fst (resolveTranslation key language values store objs)
           = Inr (RText (rendering entry key values))"
proof -
  from assms obtain r where r: "store language = Some r"
    by (auto simp: bundle_entry_def split: option.splits)
  obtain t objs' where t: "tryGetTranslate key language values store objs = (t, objs')"
    by (cases "tryGetTranslate key language values store objs")
  with tryGetTranslate_present [OF assms, of "values"]
  have "t = Inr (RText (rendering entry key values))" by simp
  with r t show ?thesis by (simp add: resolveTranslation_def)
qed

text \<open>
  Fallback in the signal-based variant: a key that the current language does not resolve
  and that the bundle of a different, non-empty fallback language holds is rendered from
  the fallback bundle.
\<close>

lemma translateFn_fallback:
  assumes "currentLang \<noteq> fallbackLang" and "fallbackLang \<noteq> []"
      and "bundle_entry translations objs currentLang key = None"
      and "Object_prototype key = None"
      and "bundle_entry translations objs fallbackLang key = Some entry"
  shows "fst (translateFn currentLang fallbackLang translations key values objs)
           = Inr (RText (rendering entry key values))"
  using assms(1,2) resolveTranslation_absent [OF assms(3,4), of "values"]
        resolveTranslation_present [OF assms(5), of "values"]
  by (auto simp: translateFn_def)

text \<open>
  The class variant, for a non-empty key that the loaded bundle of the current language
  neither holds nor inherits: the result is the key, whatever the fallback language and
  its bundle are.
\<close>

lemma getTranslationText_loaded_without_key:
  assumes "store currentLang \<noteq> None" and "key \<noteq> []"
      and "bundle_entry store objs currentLang key = None"
      and "Object_prototype key = None"
  shows "getTranslationText store fallbackLang key currentLang values objs
           = (Inr (RText key), objs)"
proof -
  have "tryGetTranslate key currentLang values store objs = (Inr (RText key), objs)"
    using assms(1) tryGetTranslate_absent [OF assms(3,4), of "values"] by simp
  with assms(2) show ?thesis
    by (simp add: getTranslationText_def)
qed

text \<open>
  Claim C1 at a concrete input. The bundle of the current language \<open>vi\<close> is loaded and
  empty, the bundle of the fallback language \<open>en\<close> holds \<open>welcome\<close>. The class variant
  (\<open>#getTranslationText\<close>) returns the key: its first lookup returns the key for a loaded
  bundle without the key, and the key is truthy, so the fallback language is not
  consulted. The signal-based variant returns the fallback bundle's text at the same
  input.
\<close>

theorem class_variant_skips_fallback:
  "fst (getTranslationText ex_store ''en'' ''welcome'' ''vi'' []
          (ex_objects [] [(''welcome'', TString ''Welcome'')])) = Inr (RText ''welcome'')
 \<and> fst (translateFn ''vi'' ''en'' ex_store ''welcome'' []
          (ex_objects [] [(''welcome'', TString ''Welcome'')])) = Inr (RText ''Welcome'')"
  by (simp add: getTranslationText_def translateFn_def resolveTranslation_def tryGetTranslate_def
        Object_prototype_def ex_store_def ex_objects_def compileTemplateFunction_def
        taggedTemplate_def js_nth_def interpolated_def js_array_get_def match_placeholder_def)

text \<open>
  A hit in the signal-based variant: when the bundle of the current language holds the key
  as a string or as a compiled template, the resolution returns the rendering of that
  entry, provided the rendering differs from the key, or no fallback language is set, or
  the fallback language is the current one.
\<close>

lemma translateFn_hit:
  assumes "bundle_entry translations objs currentLang key = Some entry"
      and "rendering entry key values \<noteq> key \<or> fallbackLang = [] \<or> fallbackLang = currentLang"
  shows "fst (translateFn currentLang fallbackLang translations key values objs)
           = Inr (RText (rendering entry key values))"
  using assms(2) resolveTranslation_present [OF assms(1), of "values"]
  by (auto simp: translateFn_def split: prod.splits sum.splits)

text \<open>
  A hit in the class variant: when the bundle of the current language holds the key as a
  string or as a compiled template whose rendering is not empty, the result is that
  rendering, whatever the fallback language and its bundle are.
\<close>

lemma getTranslationText_hit:
  assumes "bundle_entry store objs currentLang key = Some entry"
      and "rendering entry key values \<noteq> []"
  shows "fst (getTranslationText store fallbackLang key currentLang values objs)
           = Inr (RText (rendering entry key values))"
  using assms(2) tryGetTranslate_present [OF assms(1), of "values"]
  by (auto simp: getTranslationText_def split: prod.splits sum.splits)

text \<open>
  Claim C3 at a concrete input. The bundle of the current language \<open>vi\<close> holds the key
  \<open>Email\<close> with the text \<open>Email\<close>, the bundle of the fallback language \<open>en\<close> holds it
  with the text \<open>E-mail\<close>. The signal-based variant (\<open>translateFn\<close>) returns the fallback
  bundle's text: its miss test is equality of the result with the key, which holds for
  this hit. The class variant returns the current bundle's text at the same input.
\<close>

theorem hit_equal_to_key_resolved_from_fallback:
  "bundle_entry ex_store (ex_objects [(''Email'', TString ''Email'')]
       [(''Email'', TString ''E-mail'')]) ''vi'' ''Email'' = Some (TString ''Email'')
 \<and> rendering (TString ''Email'') ''Email'' [] = ''Email''
 \<and> fst (translateFn ''vi'' ''en'' ex_store ''Email'' []
          (ex_objects [(''Email'', TString ''Email'')] [(''Email'', TString ''E-mail'')]))
     = Inr (RText ''E-mail'')
 \<and> fst (getTranslationText ex_store ''en'' ''Email'' ''vi'' []
          (ex_objects [(''Email'', TString ''Email'')] [(''Email'', TString ''E-mail'')]))
     = Inr (RText ''Email'')"
  by (simp add: bundle_entry_def translateFn_def getTranslationText_def resolveTranslation_def
        tryGetTranslate_def ex_store_def ex_objects_def render_def compileTemplateFunction_def
        taggedTemplate_def js_nth_def interpolated_def js_array_get_def match_placeholder_def)

text \<open>
  A key that neither the bundle of the current language nor the bundle of the fallback
  language holds (a bundle that is not loaded holds no key), and that is not the name of
  a property inherited from \<open>Object.prototype\<close>, resolves to the key itself, for every
  argument list, in the signal-based variant and in the class variant, and the lookup
  leaves the bundles as they are.
\<close>

lemma key_as_last_resort:
  assumes "bundle_entry translations objs currentLang key = None"
      and "bundle_entry translations objs fallbackLang key = None"
      and "Object_prototype key = None"
  shows "translateFn currentLang fallbackLang translations key values objs
           = (Inr (RText key), objs)
       \<and> getTranslationText translations fallbackLang key currentLang values objs
           = (Inr (RText key), objs)"
  using resolveTranslation_absent [OF assms(1,3), of "values"]
        resolveTranslation_absent [OF assms(2,3), of "values"]
        tryGetTranslate_absent [OF assms(1,3), of "values"]
        tryGetTranslate_absent [OF assms(2,3), of "values"]
  by (auto simp: translateFn_def getTranslationText_def split: option.splits)

text \<open>
  Claim C4 at concrete inputs. The bundles of \<open>vi\<close> (empty) and \<open>en\<close> are loaded, and
  neither holds any of the keys \<open>hasOwnProperty\<close>, \<open>toString\<close>, \<open>constructor\<close>. The
  lookup \<^verbatim>\<open>translations[key]\<close> finds the function that the bundle inherits from
  \<open>Object.prototype\<close> and calls it: for \<open>hasOwnProperty\<close> the call throws a \<open>TypeError\<close>,
  for \<open>toString\<close> it returns the text \<open>[object Undefined]\<close>, for \<open>constructor\<close> it
  returns the array of arguments. This is so in the signal-based variant and in the
  class variant; in none of the three cases is the key returned.
\<close>

theorem inherited_names_are_not_resolved_to_the_key:
  "bundle_entry ex_store (ex_objects [] [(''welcome'', TString ''Welcome'')]) ''vi'' ''hasOwnProperty'' = None
 \<and> bundle_entry ex_store (ex_objects [] [(''welcome'', TString ''Welcome'')]) ''en'' ''hasOwnProperty'' = None
 \<and> fst (translateFn ''vi'' ''en'' ex_store ''hasOwnProperty'' []
          (ex_objects [] [(''welcome'', TString ''Welcome'')]))
     = Inl ''TypeError: Cannot convert undefined or null to object''
 \<and> fst (getTranslationText ex_store ''en'' ''hasOwnProperty'' ''vi'' []
          (ex_objects [] [(''welcome'', TString ''Welcome'')]))
     = Inl ''TypeError: Cannot convert undefined or null to object''
 \<and> fst (translateFn ''vi'' ''en'' ex_store ''toString'' []
          (ex_objects [] [(''welcome'', TString ''Welcome'')]))
     = Inr (RText ''[object Undefined]'')
 \<and> fst (getTranslationText ex_store ''en'' ''toString'' ''vi'' []
          (ex_objects [] [(''welcome'', TString ''Welcome'')]))
     = Inr (RText ''[object Undefined]'')
 \<and> fst (translateFn ''vi'' ''en'' ex_store ''constructor'' [JNum 1]
          (ex_objects [] [(''welcome'', TString ''Welcome'')]))
     = Inr (RArgs [JNum 1])
 \<and> fst (getTranslationText ex_store ''en'' ''constructor'' ''vi'' [JNum 1]
          (ex_objects [] [(''welcome'', TString ''Welcome'')]))
     = Inr (RArgs [JNum 1])"
  by (simp add: bundle_entry_def translateFn_def getTranslationText_def resolveTranslation_def
        tryGetTranslate_def Object_prototype_def ex_store_def ex_objects_def)

text \<open>
  Claim C10. In the class variant the miss test is the truthiness of the first result:
  when the entry of the current language renders to the empty string and a different,
  non-empty fallback language is set, the result is the fallback language's lookup (the
  key when that lookup gives \<open>null\<close>). In the signal-based variant the miss test is
  equality with the key: when the entry of the current language renders to the key's own
  text and a different, non-empty fallback language is set, the result is the fallback
  language's lookup.
\<close>

theorem empty_and_key_echo_are_misses:
  "(bundle_entry store objs currentLang key = Some entry
     \<and> rendering entry key values = []
     \<and> fallbackLang \<noteq> [] \<and> fallbackLang \<noteq> currentLang
    \<longrightarrow> fst (getTranslationText store fallbackLang key currentLang values objs)
          = (case fst (tryGetTranslate key fallbackLang values store
                        (snd (tryGetTranslate key currentLang values store objs))) of
               Inl error \<Rightarrow> Inl error
             | Inr RNull \<Rightarrow> Inr (RText key)
             | Inr result \<Rightarrow> Inr result))
 \<and> (bundle_entry store objs currentLang key = Some entry
     \<and> rendering entry key values = key
     \<and> fallbackLang \<noteq> [] \<and> fallbackLang \<noteq> currentLang
    \<longrightarrow> translateFn currentLang fallbackLang store key values objs
          = resolveTranslation key fallbackLang values store
              (snd (resolveTranslation key currentLang values store objs)))"
proof (intro conjI impI)
  assume a: "bundle_entry store objs currentLang key = Some entry
     \<and> rendering entry key values = []
     \<and> fallbackLang \<noteq> [] \<and> fallbackLang \<noteq> currentLang"
  then have "fst (tryGetTranslate key currentLang values store objs) = Inr (RText [])"
    using tryGetTranslate_present [of store objs currentLang key entry "values"] by simp
  with a show "fst (getTranslationText store fallbackLang key currentLang values objs)
          = (case fst (tryGetTranslate key fallbackLang values store
                        (snd (tryGetTranslate key currentLang values store objs))) of
               Inl error \<Rightarrow> Inl error
             | Inr RNull \<Rightarrow> Inr (RText key)
             | Inr result \<Rightarrow> Inr result)"
    by (auto simp: getTranslationText_def split: prod.splits sum.splits translated.splits)
next
  assume a: "bundle_entry store objs currentLang key = Some entry
     \<and> rendering entry key values = key
     \<and> fallbackLang \<noteq> [] \<and> fallbackLang \<noteq> currentLang"
  then have "fst (resolveTranslation key currentLang values store objs) = Inr (RText key)"
    using resolveTranslation_present [of store objs currentLang key entry "values"] by simp
  with a show "translateFn currentLang fallbackLang store key values objs
          = resolveTranslation key fallbackLang values store
              (snd (resolveTranslation key currentLang values store objs))"
    by (auto simp: translateFn_def split: prod.splits sum.splits)
qed

text \<open>
  Both miss tests at concrete inputs: an entry with the empty text in the class variant,
  and an entry whose text is its key in the signal-based variant; each time the fallback
  bundle's text is returned.
\<close>

theorem empty_and_key_echo_are_misses_witness:
  "bundle_entry ex_store (ex_objects [(''title'', TString [])] [(''title'', TString ''Title'')])
       ''vi'' ''title'' = Some (TString [])
 \<and> rendering (TString []) ''title'' [] = []
 \<and> fst (getTranslationText ex_store ''en'' ''title'' ''vi'' []
          (ex_objects [(''title'', TString [])] [(''title'', TString ''Title'')]))
     = Inr (RText ''Title'')
 \<and> bundle_entry ex_store (ex_objects [(''OK'', TString ''OK'')] [(''OK'', TString ''Okay'')])
       ''vi'' ''OK'' = Some (TString ''OK'')
 \<and> rendering (TString ''OK'') ''OK'' [] = ''OK''
 \<and> fst (translateFn ''vi'' ''en'' ex_store ''OK'' []
          (ex_objects [(''OK'', TString ''OK'')] [(''OK'', TString ''Okay'')]))
     = Inr (RText ''Okay'')"
proof -
  have a: "bundle_entry ex_store (ex_objects [(''title'', TString [])] [(''title'', TString ''Title'')])
       ''vi'' ''title'' = Some (TString [])"
   and b: "bundle_entry ex_store (ex_objects [(''OK'', TString ''OK'')] [(''OK'', TString ''Okay'')])
       ''vi'' ''OK'' = Some (TString ''OK'')"
    by (simp_all add: bundle_entry_def ex_store_def ex_objects_def)
  have c: "rendering (TString []) ''title'' [] = []"
   and d: "rendering (TString ''OK'') ''OK'' [] = ''OK''"
    by (simp_all add: render_def compileTemplateFunction_def taggedTemplate_def js_nth_def
          interpolated_def js_array_get_def match_placeholder_def)
  have e: "fst (tryGetTranslate ''title'' ''en'' [] ex_store
                  (snd (tryGetTranslate ''title'' ''vi'' [] ex_store
                     (ex_objects [(''title'', TString [])] [(''title'', TString ''Title'')]))))
             = Inr (RText ''Title'')"
    by (simp add: tryGetTranslate_def ex_store_def ex_objects_def compileTemplateFunction_def
          taggedTemplate_def js_nth_def interpolated_def js_array_get_def match_placeholder_def)
  have f: "fst (resolveTranslation ''OK'' ''en'' [] ex_store
                  (snd (resolveTranslation ''OK'' ''vi'' [] ex_store
                     (ex_objects [(''OK'', TString ''OK'')] [(''OK'', TString ''Okay'')]))))
             = Inr (RText ''Okay'')"
    by (simp add: resolveTranslation_def tryGetTranslate_def ex_store_def ex_objects_def
          compileTemplateFunction_def taggedTemplate_def js_nth_def interpolated_def
          js_array_get_def match_placeholder_def)
  have g: "fst (getTranslationText ex_store ''en'' ''title'' ''vi'' []
          (ex_objects [(''title'', TString [])] [(''title'', TString ''Title'')]))
             = Inr (RText ''Title'')"
    using empty_and_key_echo_are_misses
            [of ex_store "ex_objects [(''title'', TString [])] [(''title'', TString ''Title'')]"
                "''vi''" "''title''" "TString []" "[]" "''en''"]
          a c e
    by simp
  have h: "fst (translateFn ''vi'' ''en'' ex_store ''OK'' []
          (ex_objects [(''OK'', TString ''OK'')] [(''OK'', TString ''Okay'')]))
             = Inr (RText ''Okay'')"
    using empty_and_key_echo_are_misses
            [of ex_store "ex_objects [(''OK'', TString ''OK'')] [(''OK'', TString ''Okay'')]"
                "''vi''" "''OK''" "TString ''OK''" "[]" "''en''"]
          b d f
    by simp
  from a b c d g h show ?thesis by simp
qed

section \<open>Loading\<close>

subsection \<open>Lists of requests with distinct languages\<close>

lemma filter_key_absent:
  assumes "l \<notin> fst ` set xs"
  shows "filter (\<lambda>r. fst r = l) xs = []"
  using assms by (induction xs) auto

lemma distinct_keys_filter_le:
  assumes "distinct (map fst xs)"
  shows "length (filter (\<lambda>r. fst r = l) xs) \<le> 1"
  using assms
proof (induction xs)
  case Nil
  then show ?case by simp
next
  case (Cons x xs)
  show ?case
  proof (cases "fst x = l")
    case True
    with Cons.prems have "l \<notin> fst ` set xs" by auto
    then have "filter (\<lambda>r. fst r = l) xs = []" by (rule filter_key_absent)
    with True show ?thesis by simp
  next
    case False
    with Cons show ?thesis by simp
  qed
qed

lemma distinct_keys_filter_nth:
  assumes "distinct (map fst xs)" and "k < length xs" and "fst (xs ! k) = l"
  shows "filter (\<lambda>r. fst r = l) xs = [xs ! k]"
  using assms
proof (induction xs arbitrary: k)
  case Nil
  then show ?case by simp
next
  case (Cons x xs)
  show ?case
  proof (cases k)
    case 0
    with Cons.prems have "fst x = l" and "l \<notin> fst ` set xs" by auto
    then show ?thesis
      using 0 filter_key_absent [of l xs] by simp
  next
    case (Suc j)
    with Cons.prems have j: "j < length xs" "fst (xs ! j) = l" and d: "distinct (map fst xs)"
      by auto
    then have "l \<in> fst ` set xs"
      by (metis image_eqI nth_mem)
    with Cons.prems(1) have "fst x \<noteq> l" by auto
    with Cons.IH [OF d j] Suc show ?thesis by simp
  qed
qed

subsection \<open>The requests agree with the request cache\<close>

lemma requests_agree_initial: "requests_agree [] Map.empty"
  by (simp add: requests_agree_def)

lemma requests_agree_create:
  assumes "requests_agree requests cache" and "cache l = None"
  shows "requests_agree (requests @ [(l, url)]) (cache(l \<mapsto> length requests))"
proof -
  from assms have new: "l \<notin> fst ` set requests"
    by (auto simp: requests_agree_def)
  have d: "distinct (map fst (requests @ [(l, url)]))"
    using assms(1) new by (simp add: requests_agree_def)
  have s: "fst ` set (requests @ [(l, url)]) \<subseteq> dom (cache(l \<mapsto> length requests))"
    using assms(1) by (auto simp: requests_agree_def)
  have n: "\<forall>l' k. (cache(l \<mapsto> length requests)) l' = Some k
             \<longrightarrow> k < length (requests @ [(l, url)]) \<and> fst ((requests @ [(l, url)]) ! k) = l'"
  proof (intro allI impI)
    fix l' k
    assume c: "(cache(l \<mapsto> length requests)) l' = Some k"
    show "k < length (requests @ [(l, url)]) \<and> fst ((requests @ [(l, url)]) ! k) = l'"
    proof (cases "l' = l")
      case True
      with c have "k = length requests" by simp
      with True show ?thesis by simp
    next
      case False
      with c have "cache l' = Some k" by simp
      with assms(1) have "k < length requests" and "fst (requests ! k) = l'"
        by (auto simp: requests_agree_def)
      then show ?thesis by (simp add: nth_append)
    qed
  qed
  from d s n show ?thesis
    unfolding requests_agree_def by blast
qed

lemma getOrCreate_agree:
  assumes "requests_agree (http_requests st) (translationRequestCache st)"
  shows "requests_agree (http_requests (snd (getOrCreateTranslationRequest language st)))
           (translationRequestCache (snd (getOrCreateTranslationRequest language st)))"
proof (cases "translationRequestCache st language")
  case None
  then show ?thesis
    using requests_agree_create [OF assms None]
    by (simp add: getOrCreateTranslationRequest_def Let_def)
next
  case (Some request)
  then show ?thesis
    using assms by (simp add: getOrCreateTranslationRequest_def)
qed

lemma loadLanguageResource_requests:
  "http_requests (loadLanguageResource language st)
     = (if storeLanguage st language \<noteq> None \<or> loadingStates st language = Some True
        then http_requests st
        else http_requests (snd (getOrCreateTranslationRequest language st)))"
  "translationRequestCache (loadLanguageResource language st)
     = (if storeLanguage st language \<noteq> None \<or> loadingStates st language = Some True
        then translationRequestCache st
        else translationRequestCache (snd (getOrCreateTranslationRequest language st)))"
  by (auto simp: loadLanguageResource_def getOrCreateTranslationRequest_def setLoadingState_def
        Let_def split: option.splits prod.splits)

lemma subscriber_requests:
  "http_requests (subscriber language n st) = http_requests st"
  "translationRequestCache (subscriber language n st) = translationRequestCache st"
  by (auto simp: subscriber_def catchError_empty_def new_object_def setLoadingState_def
        handleTranslationResponse_def triggerLanguageChangedCallbacks_def Let_def
        split: notification.splits prod.splits)

lemma fold_subscriber_requests:
  "http_requests (fold (\<lambda>sub s. if fst sub = request then subscriber (snd sub) n s else s) subs st)
     = http_requests st
 \<and> translationRequestCache
      (fold (\<lambda>sub s. if fst sub = request then subscriber (snd sub) n s else s) subs st)
     = translationRequestCache st"
  by (induction subs arbitrary: st) (simp_all add: subscriber_requests)

lemma respond_requests:
  "http_requests (respond request outcome st) = http_requests st"
  "translationRequestCache (respond request outcome st) = translationRequestCache st"
  by (auto simp: respond_def http_body_def request_pipe_def catchError_empty_def new_object_def
        rx_map_def rx_shareReplay_def fold_subscriber_requests
        split: notification.splits prod.splits)

lemma step_agree:
  assumes "requests_agree (http_requests st) (translationRequestCache st)"
  shows "requests_agree (http_requests (step e st)) (translationRequestCache (step e st))"
proof (cases e)
  case (LoadLanguageResource language)
  then show ?thesis
    using assms getOrCreate_agree [OF assms, of language]
    by (simp add: loadLanguageResource_requests)
next
  case (Respond request outcome)
  then show ?thesis
    using assms by (simp add: respond_requests)
qed

lemma run_agree:
  assumes "requests_agree (http_requests st) (translationRequestCache st)"
  shows "requests_agree (http_requests (run events st)) (translationRequestCache (run events st))"
  using assms
proof (induction events arbitrary: st)
  case Nil
  then show ?case by (simp add: run_def)
next
  case (Cons e events)
  from Cons.IH [OF step_agree [OF Cons.prems, of e]]
  show ?case by (simp add: run_def)
qed

lemma requests_agree_single:
  assumes "requests_agree requests cache"
  shows "length (filter (\<lambda>r. fst r = l) requests) \<le> 1"
    and "cache l = Some k \<Longrightarrow> filter (\<lambda>r. fst r = l) requests = [requests ! k]"
proof -
  from assms have d: "distinct (map fst requests)"
    by (simp add: requests_agree_def)
  then show "length (filter (\<lambda>r. fst r = l) requests) \<le> 1"
    by (rule distinct_keys_filter_le)
  assume "cache l = Some k"
  with assms have "k < length requests" and "fst (requests ! k) = l"
    by (auto simp: requests_agree_def)
  with d show "filter (\<lambda>r. fst r = l) requests = [requests ! k]"
    by (rule distinct_keys_filter_nth)
qed

text \<open>
  The signal-based variant. From a session with an empty request cache and no request
  built, whatever load attempts and HTTP outcomes follow, at most one request is built for
  a language, and it is the one the request cache holds for the language. A language that
  the cache does not hold gets a new request, built for its URL and cached; a language
  that the cache holds is served from the cache and nothing is built. A load attempt for
  a language whose bundle is in the store, or whose load is in flight, changes nothing.
\<close>

lemma load_deduplication_signal:
  "(translationRequestCache st0 = Map.empty \<and> http_requests st0 = []
     \<longrightarrow> length (requests_for language (run events st0)) \<le> 1
       \<and> (\<forall>request. translationRequestCache (run events st0) language = Some request
             \<longrightarrow> requests_for language (run events st0)
                   = [http_requests (run events st0) ! request]))
 \<and> (translationRequestCache st language = None
     \<longrightarrow> getOrCreateTranslationRequest language st
           = (length (http_requests st),
              st\<lparr>http_requests := http_requests st
                    @ [(language, assetResourceUrl st @ ''/'' @ language @ ''.json'')],
                 translationRequestCache :=
                   (translationRequestCache st)(language \<mapsto> length (http_requests st))\<rparr>))
 \<and> (translationRequestCache st language = Some request
     \<longrightarrow> getOrCreateTranslationRequest language st = (request, st))
 \<and> (storeLanguage st language \<noteq> None \<or> loadingStates st language = Some True
     \<longrightarrow> loadLanguageResource language st = st)"
proof (intro conjI impI allI)
  assume a: "translationRequestCache st0 = Map.empty \<and> http_requests st0 = []"
  then have "requests_agree (http_requests st0) (translationRequestCache st0)"
    by (simp add: requests_agree_initial)
  then have r: "requests_agree (http_requests (run events st0))
                  (translationRequestCache (run events st0))"
    by (rule run_agree)
  show "length (requests_for language (run events st0)) \<le> 1"
    unfolding requests_for_def by (rule requests_agree_single(1) [OF r])
  fix request
  assume "translationRequestCache (run events st0) language = Some request"
  then show "requests_for language (run events st0) = [http_requests (run events st0) ! request]"
    unfolding requests_for_def by (rule requests_agree_single(2) [OF r])
next
  assume "translationRequestCache st language = None"
  then show "getOrCreateTranslationRequest language st
           = (length (http_requests st),
              st\<lparr>http_requests := http_requests st
                    @ [(language, assetResourceUrl st @ ''/'' @ language @ ''.json'')],
                 translationRequestCache :=
                   (translationRequestCache st)(language \<mapsto> length (http_requests st))\<rparr>)"
    by (simp add: getOrCreateTranslationRequest_def Let_def)
next
  assume "translationRequestCache st language = Some request"
  then show "getOrCreateTranslationRequest language st = (request, st)"
    by (simp add: getOrCreateTranslationRequest_def)
next
  assume "storeLanguage st language \<noteq> None \<or> loadingStates st language = Some True"
  then show "loadLanguageResource language st = st"
    by (auto simp: loadLanguageResource_def)
qed

subsection \<open>The class variant\<close>

lemma loader_agree:
  assumes "requests_agree (impl_http_requests st) (translationRequests st)"
  shows "requests_agree (impl_http_requests (snd (translateLoadResource_loader language st)))
           (translationRequests (snd (translateLoadResource_loader language st)))"
proof (cases "language = [] \<or> translationRequests st language \<noteq> None
                \<or> Object_prototype language \<noteq> None")
  case True
  then show ?thesis
    using assms by (auto simp: translateLoadResource_loader_def split: option.splits)
next
  case False
  then have n: "translationRequests st language = None" by simp
  from False show ?thesis
    using requests_agree_create [OF assms n]
    by (simp add: translateLoadResource_loader_def Let_def)
qed

lemma translateLoadResourceEffect_requests:
  "impl_http_requests (translateLoadResourceEffect result st) = impl_http_requests st"
  "translationRequests (translateLoadResourceEffect result st) = translationRequests st"
  by (simp_all add: translateLoadResourceEffect_def Let_def)

lemma settle_requests:
  "impl_http_requests (settle (n, st)) = impl_http_requests st"
  "translationRequests (settle (n, st)) = translationRequests st"
  by (cases n; simp add: settle_def translateLoadResourceEffect_requests)+

lemma loadTranslateAssetResources_requests:
  "impl_http_requests (snd (loadTranslateAssetResources language source st)) = impl_http_requests st"
  "translationRequests (snd (loadTranslateAssetResources language source st)) = translationRequests st"
  by (cases source;
      simp add: loadTranslateAssetResources_def rx_map_def rx_shareReplay_def
        catchError_empty_def new_object_def)+

lemma settle_pipeline_requests:
  "impl_http_requests (settle (loadTranslateAssetResources language source st)) = impl_http_requests st"
  "translationRequests (settle (loadTranslateAssetResources language source st)) = translationRequests st"
proof -
  obtain n st' where p: "loadTranslateAssetResources language source st = (n, st')"
    by (cases "loadTranslateAssetResources language source st")
  with loadTranslateAssetResources_requests [of language source st]
  have "impl_http_requests st' = impl_http_requests st"
       "translationRequests st' = translationRequests st"
    by simp_all
  with p show
    "impl_http_requests (settle (loadTranslateAssetResources language source st)) = impl_http_requests st"
    "translationRequests (settle (loadTranslateAssetResources language source st)) = translationRequests st"
    by (simp_all add: settle_requests)
qed

lemma firstValueFrom_requests:
  "impl_http_requests (firstValueFrom request st) = impl_http_requests st"
  "translationRequests (firstValueFrom request st) = translationRequests st"
  by (cases "shares st request"; simp add: firstValueFrom_def settle_pipeline_requests)+

lemma impl_load_agree:
  assumes "requests_agree (impl_http_requests st) (translationRequests st)"
  shows "requests_agree (impl_http_requests (impl_load language st))
           (translationRequests (impl_load language st))"
proof -
  obtain r st' where l: "translateLoadResource_loader language st = (r, st')"
    by (cases "translateLoadResource_loader language st")
  with loader_agree [OF assms, of language]
  have a: "requests_agree (impl_http_requests st') (translationRequests st')"
    by simp
  show ?thesis
    using l a by (cases r) (simp_all add: impl_load_def firstValueFrom_requests)
qed

lemma impl_respond_requests:
  "impl_http_requests (impl_respond request outcome st) = impl_http_requests st"
  "translationRequests (impl_respond request outcome st) = translationRequests st"
  by (cases outcome;
      simp add: impl_respond_def http_body_def new_object_def Let_def settle_pipeline_requests)+

lemma impl_step_agree:
  assumes "requests_agree (impl_http_requests st) (translationRequests st)"
  shows "requests_agree (impl_http_requests (impl_step e st)) (translationRequests (impl_step e st))"
proof (cases e)
  case (ImplLoad language)
  then show ?thesis
    using impl_load_agree [OF assms, of language] by simp
next
  case (ImplRespond request outcome)
  then show ?thesis
    using assms by (simp add: impl_respond_requests)
qed

lemma impl_run_agree:
  assumes "requests_agree (impl_http_requests st) (translationRequests st)"
  shows "requests_agree (impl_http_requests (impl_run events st))
           (translationRequests (impl_run events st))"
  using assms
proof (induction events arbitrary: st)
  case Nil
  then show ?case by (simp add: impl_run_def)
next
  case (Cons e events)
  from Cons.IH [OF impl_step_agree [OF Cons.prems, of e]]
  show ?case by (simp add: impl_run_def)
qed

text \<open>
  The class variant. From a new instance, whatever load attempts and HTTP outcomes follow,
  at most one request is built for a language, and it is the one that
  \<open>#translationRequests\<close> holds for the language. A language that the record neither holds
  nor inherits gets a new request, built for its URL and kept in the record; a language
  that the record holds is served from it and nothing is built. Subscribing to a request
  that is connected, or that replays the body of a call that succeeded, issues no HTTP
  call.
\<close>

lemma load_deduplication_class:
  "length (filter (\<lambda>r. fst r = language)
      (impl_http_requests (impl_run events (new_ImplState url)))) \<le> 1
 \<and> (\<forall>request. translationRequests (impl_run events (new_ImplState url)) language = Some request
       \<longrightarrow> filter (\<lambda>r. fst r = language) (impl_http_requests (impl_run events (new_ImplState url)))
             = [impl_http_requests (impl_run events (new_ImplState url)) ! request])
 \<and> (language \<noteq> [] \<and> translationRequests ist language = None \<and> Object_prototype language = None
     \<longrightarrow> translateLoadResource_loader language ist
           = (Inr (length (impl_http_requests ist)),
              ist\<lparr>impl_http_requests := impl_http_requests ist
                     @ [(language, impl_assetsUrl ist @ ''/'' @ language @ ''.json'')],
                  translationRequests :=
                    (translationRequests ist)(language \<mapsto> length (impl_http_requests ist))\<rparr>))
 \<and> (language \<noteq> [] \<and> translationRequests ist language = Some request
     \<longrightarrow> translateLoadResource_loader language ist = (Inr request, ist))
 \<and> (shares ist request \<noteq> NotConnected
     \<longrightarrow> http_calls (firstValueFrom request ist) = http_calls ist)"
proof (intro conjI impI allI)
  have "requests_agree (impl_http_requests (new_ImplState url))
          (translationRequests (new_ImplState url))"
    by (simp add: new_ImplState_def requests_agree_initial)
  then have r: "requests_agree (impl_http_requests (impl_run events (new_ImplState url)))
               (translationRequests (impl_run events (new_ImplState url)))"
    by (rule impl_run_agree)
  then show "length (filter (\<lambda>r. fst r = language)
             (impl_http_requests (impl_run events (new_ImplState url)))) \<le> 1"
    by (rule requests_agree_single(1))
  fix request
  assume "translationRequests (impl_run events (new_ImplState url)) language = Some request"
  then show "filter (\<lambda>r. fst r = language) (impl_http_requests (impl_run events (new_ImplState url)))
             = [impl_http_requests (impl_run events (new_ImplState url)) ! request]"
    by (rule requests_agree_single(2) [OF r])
next
  assume "language \<noteq> [] \<and> translationRequests ist language = None
            \<and> Object_prototype language = None"
  then show "translateLoadResource_loader language ist
           = (Inr (length (impl_http_requests ist)),
              ist\<lparr>impl_http_requests := impl_http_requests ist
                     @ [(language, impl_assetsUrl ist @ ''/'' @ language @ ''.json'')],
                  translationRequests :=
                    (translationRequests ist)(language \<mapsto> length (impl_http_requests ist))\<rparr>)"
    by (simp add: translateLoadResource_loader_def Let_def)
next
  assume "language \<noteq> [] \<and> translationRequests ist language = Some request"
  then show "translateLoadResource_loader language ist = (Inr request, ist)"
    by (simp add: translateLoadResource_loader_def)
next
  assume a: "shares ist request \<noteq> NotConnected"
  show "http_calls (firstValueFrom request ist) = http_calls ist"
  proof (cases "shares ist request")
    case NotConnected
    with a show ?thesis by simp
  next
    case Connected
    then show ?thesis by (simp add: firstValueFrom_def)
  next
    case (Replaying body)
    then show ?thesis
      by (simp add: firstValueFrom_def loadTranslateAssetResources_def rx_map_def
            rx_shareReplay_def catchError_empty_def settle_def translateLoadResourceEffect_def
            Let_def)
  qed
qed

subsection \<open>A second call for a file that failed to load\<close>

text \<open>
  The example session of the signal-based variant, in which the file of \<open>vi\<close> fails to
  load: one request for \<open>vi\<close> and one for \<open>en\<close>, and the bundle of \<open>vi\<close> is the new
  empty object 0.
\<close>

lemma ex_run:
  "http_requests (run ex_events ex_state) = [(''vi'', ''/i18n/vi.json''), (''en'', ''/i18n/en.json'')]"
  "translationRequestCache (run ex_events ex_state) ''vi'' = Some 0"
  "storeLanguage (run ex_events ex_state) ''vi'' = Some 0"
  "storeLanguage (run ex_events ex_state) ''en'' = None"
  "objects (run ex_events ex_state) 0 = []"
  "currentLanguage (run ex_events ex_state) = ''vi''"
  "fallbackLanguage (run ex_events ex_state) = ''en''"
  by (simp_all add: run_def ex_events_def ex_state_def new_I18nState_def loadLanguageResource_def
        getOrCreateTranslationRequest_def setLoadingState_def respond_def http_body_def
        request_pipe_def catchError_empty_def new_object_def rx_map_def rx_shareReplay_def
        subscriber_def handleTranslationResponse_def isDifferentTranslateData_def
        triggerLanguageChangedCallbacks_def Let_def)

text \<open>
  The example session of the class variant: the file of \<open>vi\<close> fails to load, the empty
  bundle is stored for \<open>vi\<close>, the request of \<open>vi\<close> is not connected any more, and the
  language is switched to \<open>en\<close>.
\<close>

lemma ex_impl_run:
  "impl_http_requests (impl_run ex_impl_events (new_ImplState ''/i18n''))
     = [(''vi'', ''/i18n/vi.json''), (''en'', ''/i18n/en.json'')]"
  "translationRequests (impl_run ex_impl_events (new_ImplState ''/i18n'')) ''vi'' = Some 0"
  "impl_storeLanguage (impl_run ex_impl_events (new_ImplState ''/i18n'')) ''vi'' = Some 0"
  "impl_storeLanguage (impl_run ex_impl_events (new_ImplState ''/i18n'')) ''en'' = None"
  "objects (impl_run ex_impl_events (new_ImplState ''/i18n'')) 0 = []"
  "shares (impl_run ex_impl_events (new_ImplState ''/i18n'')) 0 = NotConnected"
  "http_calls (impl_run ex_impl_events (new_ImplState ''/i18n'')) = [0, 1]"
  by (simp_all add: impl_run_def ex_impl_events_def new_ImplState_def impl_load_def
        translateLoadResource_loader_def Object_prototype_def firstValueFrom_def
        impl_respond_def http_body_def loadTranslateAssetResources_def rx_map_def
        rx_shareReplay_def catchError_empty_def new_object_def settle_def
        translateLoadResourceEffect_def isDifferentTranslateData_def Let_def)

text \<open>
  Claim C5 at a concrete input, in the class variant. The file of \<open>vi\<close> fails to load, so
  the empty bundle is stored for \<open>vi\<close>; the language is switched to \<open>en\<close> and back to
  \<open>vi\<close>. The load attempt for \<open>vi\<close> finds the bundle of \<open>vi\<close> in the store and the
  request of \<open>vi\<close> in \<open>#translationRequests\<close>, builds no second request, and yet issues
  a second HTTP call for the file: the loader does not look at the store, and
  \<open>shareReplay\<close> was reset by the failure. In the signal-based variant the load attempt
  for \<open>vi\<close> after the same failure changes nothing.
\<close>

theorem class_variant_fetches_again_after_failed_load:
  "impl_storeLanguage (impl_run ex_impl_events (new_ImplState ''/i18n'')) ''vi'' = Some 0
 \<and> impl_http_requests (impl_run ex_impl_events (new_ImplState ''/i18n''))
     = [(''vi'', ''/i18n/vi.json''), (''en'', ''/i18n/en.json'')]
 \<and> http_calls (impl_run ex_impl_events (new_ImplState ''/i18n'')) = [0, 1]
 \<and> impl_http_requests (impl_load ''vi'' (impl_run ex_impl_events (new_ImplState ''/i18n'')))
     = [(''vi'', ''/i18n/vi.json''), (''en'', ''/i18n/en.json'')]
 \<and> http_calls (impl_load ''vi'' (impl_run ex_impl_events (new_ImplState ''/i18n''))) = [0, 1, 0]
 \<and> storeLanguage (run ex_events ex_state) ''vi'' = Some 0
 \<and> loadLanguageResource ''vi'' (run ex_events ex_state) = run ex_events ex_state"
proof -
  define st where "st = impl_run ex_impl_events (new_ImplState ''/i18n'')"
  note f = ex_impl_run [folded st_def]
  have l: "translateLoadResource_loader ''vi'' st = (Inr 0, st)"
    using f(2) by (simp add: translateLoadResource_loader_def)
  have c: "http_calls (impl_load ''vi'' st) = [0, 1, 0]"
    using f(6,7) by (simp add: impl_load_def l firstValueFrom_def)
  have r: "impl_http_requests (impl_load ''vi'' st)
             = [(''vi'', ''/i18n/vi.json''), (''en'', ''/i18n/en.json'')]"
    using f(1,6) by (simp add: impl_load_def l firstValueFrom_def)
  have s: "loadLanguageResource ''vi'' (run ex_events ex_state) = run ex_events ex_state"
    using ex_run(3) by (simp add: loadLanguageResource_def)
  from f c r s ex_run(3) show ?thesis
    unfolding st_def by simp
qed

subsection \<open>A file that fails to load\<close>

lemma request_pipe_Error:
  "request_pipe language (Error error) h
     = (Next \<lparr>resp_lang = language, resp_data = next_ref h\<rparr>,
        h\<lparr>objects := (objects h)(next_ref h := []), next_ref := Suc (next_ref h)\<rparr>)"
  by (simp add: request_pipe_def rx_map_def rx_shareReplay_def catchError_empty_def new_object_def)

lemma loadTranslateAssetResources_Error:
  "loadTranslateAssetResources language (Error error) h
     = (Next \<lparr>resp_lang = language, resp_data = next_ref h\<rparr>,
        h\<lparr>objects := (objects h)(next_ref h := []), next_ref := Suc (next_ref h)\<rparr>)"
  by (simp add: loadTranslateAssetResources_def rx_map_def rx_shareReplay_def
        catchError_empty_def new_object_def)

lemma request_pipe_Next:
  "request_pipe language (Next d) h = (Next \<lparr>resp_lang = language, resp_data = d\<rparr>, h)"
  by (simp add: request_pipe_def rx_map_def rx_shareReplay_def catchError_empty_def)

lemma loadTranslateAssetResources_Next:
  "loadTranslateAssetResources language (Next d) h
     = (Next \<lparr>resp_lang = language, resp_data = d\<rparr>, h)"
  by (simp add: loadTranslateAssetResources_def rx_map_def rx_shareReplay_def catchError_empty_def)

lemma fold_other_subscribers:
  assumes "request \<notin> fst ` set subs"
  shows "fold (\<lambda>sub s. if fst sub = request then subscriber (snd sub) n s else s) subs st = st"
  using assms by (induction subs arbitrary: st) auto

lemma filter_other_subscribers:
  assumes "request \<notin> fst ` set subs"
  shows "filter (\<lambda>sub. fst sub \<noteq> request) subs = subs"
  using assms by (induction subs) auto

lemma loadLanguageResource_starts:
  assumes "storeLanguage st language = None" and "loadingStates st language \<noteq> Some True"
      and "translationRequestCache st language = None"
  shows "loadLanguageResource language st
           = st\<lparr>loadingStates := (loadingStates st)(language \<mapsto> True),
                http_requests := http_requests st
                  @ [(language, assetResourceUrl st @ ''/'' @ language @ ''.json'')],
                translationRequestCache :=
                  (translationRequestCache st)(language \<mapsto> length (http_requests st)),
                subscriptions := subscriptions st @ [(length (http_requests st), language)]\<rparr>"
  using assms
  by (simp add: loadLanguageResource_def getOrCreateTranslationRequest_def setLoadingState_def
        Let_def)

lemma subscriber_first_result:
  assumes "storeLanguage st language = None"
  shows "subscriber language (Next \<lparr>resp_lang = language, resp_data = r\<rparr>) st
           = st\<lparr>storeLanguage := (storeLanguage st)(language \<mapsto> r),
                callback_calls := callback_calls st @ languageChangedCallbacks st,
                loadingStates := (loadingStates st)(language \<mapsto> False)\<rparr>"
  using assms
  by (simp add: subscriber_def catchError_empty_def handleTranslationResponse_def
        isDifferentTranslateData_def triggerLanguageChangedCallbacks_def setLoadingState_def)

lemma failed_load:
  assumes "storeLanguage st language = None" and "loadingStates st language \<noteq> Some True"
      and "translationRequestCache st language = None"
      and "length (http_requests st) \<notin> fst ` set (subscriptions st)"
  shows "respond (length (http_requests st)) (Error error) (loadLanguageResource language st)
           = st\<lparr>objects := (objects st)(next_ref st := []),
                next_ref := Suc (next_ref st),
                storeLanguage := (storeLanguage st)(language \<mapsto> next_ref st),
                loadingStates := (loadingStates st)(language \<mapsto> False),
                http_requests := http_requests st
                  @ [(language, assetResourceUrl st @ ''/'' @ language @ ''.json'')],
                translationRequestCache :=
                  (translationRequestCache st)(language \<mapsto> length (http_requests st)),
                callback_calls := callback_calls st @ languageChangedCallbacks st\<rparr>"
proof -
  let ?request = "length (http_requests st)"
  let ?st1 = "loadLanguageResource language st"
  have st1: "?st1 = st\<lparr>loadingStates := (loadingStates st)(language \<mapsto> True),
                http_requests := http_requests st
                  @ [(language, assetResourceUrl st @ ''/'' @ language @ ''.json'')],
                translationRequestCache :=
                  (translationRequestCache st)(language \<mapsto> length (http_requests st)),
                subscriptions := subscriptions st @ [(length (http_requests st), language)]\<rparr>"
    using assms(1-3) by (rule loadLanguageResource_starts)
  let ?st2 = "?st1\<lparr>objects := (objects ?st1)(next_ref ?st1 := []), next_ref := Suc (next_ref ?st1)\<rparr>"
  let ?st3 = "?st2\<lparr>subscriptions := filter (\<lambda>sub. fst sub \<noteq> ?request) (subscriptions ?st2)\<rparr>"
  have guard: "?request < length (http_requests ?st1) \<and> ?request \<in> fst ` set (subscriptions ?st1)"
    by (simp add: st1)
  have lang: "fst (http_requests ?st1 ! ?request) = language"
    by (simp add: st1)
  have subs2: "subscriptions ?st2 = subscriptions st @ [(?request, language)]"
    by (simp add: st1)
  have subs3: "subscriptions ?st3 = subscriptions st"
    using assms(4) by (simp add: st1 filter_other_subscribers)
  have store3: "storeLanguage ?st3 language = None"
    using assms(1) by (simp add: st1)
  have r: "respond ?request (Error error) ?st1
             = fold (\<lambda>sub s. if fst sub = ?request
                              then subscriber (snd sub)
                                     (Next \<lparr>resp_lang = language, resp_data = next_ref ?st1\<rparr>) s
                              else s)
                 (subscriptions ?st2) ?st3"
    using guard lang
    by (simp add: respond_def http_body_def request_pipe_Error del: fold_simps)
  also have "\<dots> = subscriber language (Next \<lparr>resp_lang = language, resp_data = next_ref ?st1\<rparr>) ?st3"
    using assms(4) by (simp add: subs2 fold_other_subscribers)
  also have "\<dots> = ?st3\<lparr>storeLanguage := (storeLanguage ?st3)(language \<mapsto> next_ref ?st1),
                callback_calls := callback_calls ?st3 @ languageChangedCallbacks ?st3,
                loadingStates := (loadingStates ?st3)(language \<mapsto> False)\<rparr>"
    using store3 by (rule subscriber_first_result)
  finally show ?thesis
    using assms(4) by (simp add: st1 filter_other_subscribers)
qed

text \<open>
  For every transport error, the request of either variant delivers the value
  \<open>{lang, data: {}}\<close>, with a new empty bundle, and whatever the HTTP outcome, a request
  delivers a value and never an error.
\<close>

lemma fetch_failure_pipeline:
  "request_pipe language (Error error) h
     = (Next \<lparr>resp_lang = language, resp_data = next_ref h\<rparr>,
        h\<lparr>objects := (objects h)(next_ref h := []), next_ref := Suc (next_ref h)\<rparr>)
 \<and> loadTranslateAssetResources language (Error error) h
     = (Next \<lparr>resp_lang = language, resp_data = next_ref h\<rparr>,
        h\<lparr>objects := (objects h)(next_ref h := []), next_ref := Suc (next_ref h)\<rparr>)
 \<and> (\<exists>response h'. request_pipe language source h = (Next response, h'))
 \<and> (\<exists>response h'. loadTranslateAssetResources language source h = (Next response, h'))"
proof (intro conjI)
  show "request_pipe language (Error error) h
     = (Next \<lparr>resp_lang = language, resp_data = next_ref h\<rparr>,
        h\<lparr>objects := (objects h)(next_ref h := []), next_ref := Suc (next_ref h)\<rparr>)"
    by (rule request_pipe_Error)
  show "loadTranslateAssetResources language (Error error) h
     = (Next \<lparr>resp_lang = language, resp_data = next_ref h\<rparr>,
        h\<lparr>objects := (objects h)(next_ref h := []), next_ref := Suc (next_ref h)\<rparr>)"
    by (rule loadTranslateAssetResources_Error)
  show "\<exists>response h'. request_pipe language source h = (Next response, h')"
    by (cases source) (simp_all add: request_pipe_Error request_pipe_Next)
  show "\<exists>response h'. loadTranslateAssetResources language source h = (Next response, h')"
    by (cases source)
       (simp_all add: loadTranslateAssetResources_Error loadTranslateAssetResources_Next)
qed

text \<open>
  In the signal-based variant a file that fails to load leaves the session as a file
  that holds the empty object \<open>{}\<close> does.
\<close>

lemma failed_fetch_like_empty_file:
  "respond request (Error error) st = respond request (Next []) st"
  by (simp add: respond_def http_body_def request_pipe_def rx_map_def rx_shareReplay_def
        catchError_empty_def new_object_def)

text \<open>
  In the signal-based variant, when the load of a language that has no bundle fails, the
  subscriber stores the empty bundle for the language and ends the loading state, and
  from then on every key that is not the name of a property inherited from
  \<open>Object.prototype\<close> resolves in this language to the key itself.
\<close>

lemma after_failed_load:
  assumes "storeLanguage st language = None" and "loadingStates st language \<noteq> Some True"
      and "translationRequestCache st language = None"
      and "length (http_requests st) \<notin> fst ` set (subscriptions st)"
      and "st' = respond (length (http_requests st)) (Error error) (loadLanguageResource language st)"
  shows "storeLanguage st' language = Some (next_ref st)"
    and "objects st' (next_ref st) = []"
    and "loadingStates st' language = Some False"
    and "Object_prototype key = None \<Longrightarrow>
           resolveTranslation key language values (storeLanguage st') (objects st')
             = (Inr (RText key), objects st')"
proof -
  have f: "st' = st\<lparr>objects := (objects st)(next_ref st := []),
                next_ref := Suc (next_ref st),
                storeLanguage := (storeLanguage st)(language \<mapsto> next_ref st),
                loadingStates := (loadingStates st)(language \<mapsto> False),
                http_requests := http_requests st
                  @ [(language, assetResourceUrl st @ ''/'' @ language @ ''.json'')],
                translationRequestCache :=
                  (translationRequestCache st)(language \<mapsto> length (http_requests st)),
                callback_calls := callback_calls st @ languageChangedCallbacks st\<rparr>"
    unfolding assms(5) using assms(1-4) by (rule failed_load)
  show 1: "storeLanguage st' language = Some (next_ref st)"
   and 2: "objects st' (next_ref st) = []"
   and 3: "loadingStates st' language = Some False"
    by (simp_all add: f)
  assume p: "Object_prototype key = None"
  show "resolveTranslation key language values (storeLanguage st') (objects st')
             = (Inr (RText key), objects st')"
  proof (rule resolveTranslation_absent [OF _ p])
    show "bundle_entry (storeLanguage st') (objects st') language key = None"
      by (simp add: bundle_entry_def 1 2)
  qed
qed

text \<open>
  Claim C6 at a concrete input. In the example sessions the file of \<open>vi\<close> fails to load
  with the error 404. The request delivers the value \<open>{lang: vi, data: {}}\<close>, the new
  empty object 0, which is stored as the bundle of \<open>vi\<close>, and \<open>get\<close> returns the key
  \<open>welcome\<close>. For the key \<open>hasOwnProperty\<close>, which the empty bundle inherits from
  \<open>Object.prototype\<close>, \<open>get\<close> throws a \<open>TypeError\<close> to its caller, in the signal-based
  variant and in the class variant; for the key \<open>toString\<close> it returns the text
  \<open>[object Undefined]\<close>.
\<close>

theorem failed_load_then_get_throws:
  "fst (request_pipe ''vi'' (Error ''404'') ex_state) = Next \<lparr>resp_lang = ''vi'', resp_data = 0\<rparr>
 \<and> storeLanguage (run ex_events ex_state) ''vi'' = Some 0
 \<and> objects (run ex_events ex_state) 0 = []
 \<and> fst (i18n_get ''welcome'' [] (run ex_events ex_state)) = Inr (RText ''welcome'')
 \<and> fst (i18n_get ''hasOwnProperty'' [] (run ex_events ex_state))
     = Inl ''TypeError: Cannot convert undefined or null to object''
 \<and> fst (i18n_get ''toString'' [] (run ex_events ex_state)) = Inr (RText ''[object Undefined]'')
 \<and> impl_storeLanguage (impl_run ex_impl_events (new_ImplState ''/i18n'')) ''vi'' = Some 0
 \<and> objects (impl_run ex_impl_events (new_ImplState ''/i18n'')) 0 = []
 \<and> fst (impl_get ''vi'' ''en'' ''hasOwnProperty'' []
          (impl_run ex_impl_events (new_ImplState ''/i18n'')))
     = Inl ''TypeError: Cannot convert undefined or null to object''
 \<and> fst (impl_get ''vi'' ''en'' ''toString'' []
          (impl_run ex_impl_events (new_ImplState ''/i18n'')))
     = Inr (RText ''[object Undefined]'')"
proof -
  have p: "fst (request_pipe ''vi'' (Error ''404'') ex_state)
             = Next \<lparr>resp_lang = ''vi'', resp_data = 0\<rparr>"
    by (simp add: request_pipe_Error ex_state_def new_I18nState_def)
  define st where "st = run ex_events ex_state"
  note f = ex_run [folded st_def]
  have g: "fst (i18n_get ''welcome'' [] st) = Inr (RText ''welcome'')"
          "fst (i18n_get ''hasOwnProperty'' [] st)
             = Inl ''TypeError: Cannot convert undefined or null to object''"
          "fst (i18n_get ''toString'' [] st) = Inr (RText ''[object Undefined]'')"
    using f(3-7)
    by (simp_all add: i18n_get_def translateFn_def resolveTranslation_def tryGetTranslate_def
          Object_prototype_def split: prod.splits)
  define ist where "ist = impl_run ex_impl_events (new_ImplState ''/i18n'')"
  note i = ex_impl_run [folded ist_def]
  have h: "fst (impl_get ''vi'' ''en'' ''hasOwnProperty'' [] ist)
             = Inl ''TypeError: Cannot convert undefined or null to object''"
          "fst (impl_get ''vi'' ''en'' ''toString'' [] ist) = Inr (RText ''[object Undefined]'')"
    using i(3-5)
    by (simp_all add: impl_get_def getTranslationText_def tryGetTranslate_def
          Object_prototype_def split: prod.splits)
  from p f(3,5) g i(3,5) h show ?thesis
    unfolding st_def ist_def by simp
qed

subsection \<open>The data-changed check\<close>

text \<open>
  Claim C8. \<open>isDifferentTranslateData\<close> answers true when either side is absent; for
  two bundles it answers false when they are the same object, and otherwise true exactly
  when their key counts differ, whatever the bundles hold. When it answers false,
  \<open>handleTranslationResponse\<close> leaves the whole state as it is: the store is not replaced
  and no change callback is called. When it answers true, the bundle is stored and every
  registered callback is called.
\<close>

theorem bundle_change_check:
  "isDifferentTranslateData objs None b
 \<and> isDifferentTranslateData objs a None
 \<and> \<not> isDifferentTranslateData objs (Some r) (Some r)
 \<and> (ra \<noteq> rb \<longrightarrow>
      isDifferentTranslateData objs (Some ra) (Some rb)
        = (length (object_keys (objs ra)) \<noteq> length (object_keys (objs rb))))
 \<and> (\<not> isDifferentTranslateData (objects st) (storeLanguage st (resp_lang response))
          (Some (resp_data response))
      \<longrightarrow> handleTranslationResponse response st = st)
 \<and> (isDifferentTranslateData (objects st) (storeLanguage st (resp_lang response))
          (Some (resp_data response))
      \<longrightarrow> storeLanguage (handleTranslationResponse response st)
            = (storeLanguage st)(resp_lang response \<mapsto> resp_data response)
        \<and> callback_calls (handleTranslationResponse response st)
            = callback_calls st @ languageChangedCallbacks st)"
  by (auto simp: isDifferentTranslateData_def handleTranslationResponse_def Let_def
        triggerLanguageChangedCallbacks_def split: option.splits)

theorem bundle_change_check_witness:
  "\<not> isDifferentTranslateData (ex_objects [(''a'', TString ''old'')] [(''a'', TString ''new'')])
       (Some 0) (Some 1)
 \<and> handleTranslationResponse \<lparr>resp_lang = ''vi'', resp_data = 1\<rparr>
      (new_I18nState\<lparr>objects := ex_objects [(''a'', TString ''old'')] [(''a'', TString ''new'')],
         storeLanguage := [''vi'' \<mapsto> 0], languageChangedCallbacks := [7]\<rparr>)
    = new_I18nState\<lparr>objects := ex_objects [(''a'', TString ''old'')] [(''a'', TString ''new'')],
         storeLanguage := [''vi'' \<mapsto> 0], languageChangedCallbacks := [7]\<rparr>
 \<and> isDifferentTranslateData (ex_objects [(''a'', TString ''old'')] []) (Some 0) (Some 1)"
proof -
  let ?objs = "ex_objects [(''a'', TString ''old'')] [(''a'', TString ''new'')]"
  let ?st = "new_I18nState\<lparr>objects := ?objs,
         storeLanguage := [''vi'' \<mapsto> 0], languageChangedCallbacks := [7]\<rparr>"
  let ?response = "\<lparr>resp_lang = ''vi'', resp_data = 1\<rparr>"
  have n: "(0::nat) \<noteq> 1" by simp
  have k: "length (object_keys (?objs 0)) = length (object_keys (?objs 1))"
    by (simp add: ex_objects_def object_keys_def)
  have k': "length (object_keys (ex_objects [(''a'', TString ''old'')] [] 0))
          \<noteq> length (object_keys (ex_objects [(''a'', TString ''old'')] [] 1))"
    by (simp add: ex_objects_def object_keys_def)
  have same: "\<not> isDifferentTranslateData ?objs (Some 0) (Some 1)"
    using bundle_change_check [of ?objs "None" "None" 0 0 1 ?st ?response] n k by simp
  have s: "objects ?st = ?objs" "storeLanguage ?st (resp_lang ?response) = Some 0"
          "resp_data ?response = 1"
    by (simp_all add: new_I18nState_def)
  have unchanged: "handleTranslationResponse ?response ?st = ?st"
    using bundle_change_check [of ?objs "None" "None" 0 0 1 ?st ?response] same s
    by simp
  have diff: "isDifferentTranslateData (ex_objects [(''a'', TString ''old'')] []) (Some 0) (Some 1)"
    using bundle_change_check [of "ex_objects [(''a'', TString ''old'')] []" "None" "None" 0 0 1 ?st ?response]
          n k' by simp
  from same unchanged diff show ?thesis by simp
qed

section \<open>Reactive handles\<close>













text \<open>
  After \<open>invalidateCache\<close> the next call builds a new signal, whatever was cached
  before.
\<close>

lemma getCachedSignal_after_invalidateCache:
  "fst (getCachedSignal key values (invalidateCache cache)) = length (computeds cache)"
  by (simp add: getCachedSignal_def invalidateCache_def getSignal_def Let_def)


section \<open>Initialization\<close>

lemma hook_first_initialize:
  assumes "initializeI18nWithCustom inContext C config new_HookRegistry = (Inr inst, reg)"
  shows "isInitialized reg" and "translateInstance reg = Some inst" and "hook_constructed reg = 1"
  using assms
  by (auto simp: initializeI18nWithCustom_def new_HookRegistry_def split: sum.splits)

lemma hook_second_initialize:
  assumes "isInitialized reg" and "translateInstance reg = Some inst"
  shows "initializeI18nWithCustom inContext C config reg
           = (if instanceof inst C then Inr inst
              else Inl ''[I18n] Cannot reinitialize with different implementation type'',
              reg\<lparr>hook_warnings := hook_warnings reg @ [''[I18n] Already initialized'']\<rparr>)"
  using assms by (simp add: initializeI18nWithCustom_def Let_def)

lemma global_first_initialize:
  assumes "initializeI18n configure new_GlobalRegistry = (Inr obj, g)"
  shows "isInitializedFlag g" and "instanceI18nGlobal g = obj" and "obj \<noteq> None"
    and "global_constructed g = 1"
  using assms
  by (auto simp: initializeI18n_def new_GlobalRegistry_def split: sum.splits if_splits)

lemma global_second_initialize:
  assumes "isInitializedFlag g" and "instanceI18nGlobal g = obj"
  shows "initializeI18n configure g
           = (if conf_injector configure = None
              then (Inl ''[I18n] Missing Angular injector in configuration'', g)
              else (Inr obj,
                    g\<lparr>global_warnings := global_warnings g
                        @ [''[I18n] Already initialized, returning existing instance'']\<rparr>))"
  using assms by (simp add: initializeI18n_def)

text \<open>
  Claim C9, as amended. After a successful first \<open>initializeI18nWithCustom\<close>, a second call
  constructs nothing, whatever its configuration and wherever it is called: it warns, and returns the existing
  instance when that is an instance of the requested class, and throws otherwise. After a
  successful first \<open>initializeI18n\<close> of translate-base.ts, a second call constructs
  nothing: it returns the existing instance with a warning when its configuration has an
  injector, and throws otherwise. Each accessor throws before any initialization.
\<close>

theorem reinitialization:
  "(initializeI18nWithCustom inContext1 C1 config1 new_HookRegistry = (Inr inst, reg)
     \<longrightarrow> initializeI18nWithCustom inContext2 C2 config2 reg
           = (if instanceof inst C2 then Inr inst
              else Inl ''[I18n] Cannot reinitialize with different implementation type'',
              reg\<lparr>hook_warnings := hook_warnings reg @ [''[I18n] Already initialized'']\<rparr>)
         \<and> hook_constructed reg = 1)
 \<and> (initializeI18n configure1 new_GlobalRegistry = (Inr obj, g)
     \<longrightarrow> initializeI18n configure2 g
           = (if conf_injector configure2 = None
              then (Inl ''[I18n] Missing Angular injector in configuration'', g)
              else (Inr obj,
                    g\<lparr>global_warnings := global_warnings g
                        @ [''[I18n] Already initialized, returning existing instance'']\<rparr>))
         \<and> obj \<noteq> None \<and> global_constructed g = 1)
 \<and> useI18nTranslate new_HookRegistry = Inl ''[I18n] Must call initializeI18n() first''
 \<and> getInstanceI18n new_GlobalRegistry = Inl ''[I18n] Must call initializeI18n() first''"
proof (intro conjI impI)
  assume a: "initializeI18nWithCustom inContext1 C1 config1 new_HookRegistry = (Inr inst, reg)"
  show "initializeI18nWithCustom inContext2 C2 config2 reg
           = (if instanceof inst C2 then Inr inst
              else Inl ''[I18n] Cannot reinitialize with different implementation type'',
              reg\<lparr>hook_warnings := hook_warnings reg @ [''[I18n] Already initialized'']\<rparr>)"
    using hook_first_initialize(1,2) [OF a] by (rule hook_second_initialize)
  show "hook_constructed reg = 1"
    by (rule hook_first_initialize(3) [OF a])
next
  assume b: "initializeI18n configure1 new_GlobalRegistry = (Inr obj, g)"
  show "initializeI18n configure2 g
           = (if conf_injector configure2 = None
              then (Inl ''[I18n] Missing Angular injector in configuration'', g)
              else (Inr obj,
                    g\<lparr>global_warnings := global_warnings g
                        @ [''[I18n] Already initialized, returning existing instance'']\<rparr>))"
    using global_first_initialize(1,2) [OF b] by (rule global_second_initialize)
  show "obj \<noteq> None"
    by (rule global_first_initialize(3) [OF b])
  show "global_constructed g = 1"
    by (rule global_first_initialize(4) [OF b])
next
  show "useI18nTranslate new_HookRegistry = Inl ''[I18n] Must call initializeI18n() first''"
    by (simp add: useI18nTranslate_def new_HookRegistry_def)
  show "getInstanceI18n new_GlobalRegistry = Inl ''[I18n] Must call initializeI18n() first''"
    by (simp add: getInstanceI18n_def new_GlobalRegistry_def)
qed

theorem reinitialization_witness:
  "fst (hook_initializeI18n True ex_config new_HookRegistry)
     = Inr \<lparr>instance_number = 0, instance_class = I18nTranslateImplement, instance_config = ex_config\<rparr>
 \<and> fst (initializeI18nWithCustom True I18nTranslateImplement (ex_config\<lparr>assetsUrl := ''/other''\<rparr>)
          (snd (hook_initializeI18n True ex_config new_HookRegistry)))
     = Inr \<lparr>instance_number = 0, instance_class = I18nTranslateImplement, instance_config = ex_config\<rparr>
 \<and> hook_constructed (snd (initializeI18nWithCustom True I18nTranslateImplement
          (ex_config\<lparr>assetsUrl := ''/other''\<rparr>)
          (snd (hook_initializeI18n True ex_config new_HookRegistry)))) = 1
 \<and> fst (initializeI18n (ex_configure (Some (Injector True))) new_GlobalRegistry)
     = Inr (Some \<lparr>object_number = 0, object_configure = ex_configure (Some (Injector True))\<rparr>)
 \<and> fst (initializeI18n (ex_configure (Some (Injector False)))
          (snd (initializeI18n (ex_configure (Some (Injector True))) new_GlobalRegistry)))
     = Inr (Some \<lparr>object_number = 0, object_configure = ex_configure (Some (Injector True))\<rparr>)
 \<and> global_constructed (snd (initializeI18n (ex_configure (Some (Injector False)))
          (snd (initializeI18n (ex_configure (Some (Injector True))) new_GlobalRegistry)))) = 1"
proof -
  let ?inst = "\<lparr>instance_number = 0, instance_class = I18nTranslateImplement, instance_config = ex_config\<rparr>"
  let ?obj = "\<lparr>object_number = 0, object_configure = ex_configure (Some (Injector True))\<rparr>"
  define reg where "reg = snd (hook_initializeI18n True ex_config new_HookRegistry)"
  define g where "g = snd (initializeI18n (ex_configure (Some (Injector True))) new_GlobalRegistry)"
  have a: "initializeI18nWithCustom True I18nTranslateImplement ex_config new_HookRegistry = (Inr ?inst, reg)"
    unfolding reg_def hook_initializeI18n_def
    by (simp add: initializeI18nWithCustom_def new_HookRegistry_def construct_def ex_config_def
          I18nTranslateImplement_def)
  have b: "initializeI18n (ex_configure (Some (Injector True))) new_GlobalRegistry = (Inr (Some ?obj), g)"
    unfolding g_def
    by (simp add: initializeI18n_def new_GlobalRegistry_def initInstanceI18n_def ex_configure_def)
  have i: "instanceof ?inst I18nTranslateImplement"
    by (simp add: instanceof_def)
  have c: "conf_injector (ex_configure (Some (Injector False))) \<noteq> None"
    by (simp add: ex_configure_def)
  note r = reinitialization [of True I18nTranslateImplement ex_config ?inst reg True I18nTranslateImplement
      "ex_config\<lparr>assetsUrl := ''/other''\<rparr>" "ex_configure (Some (Injector True))" "Some ?obj" g
      "ex_configure (Some (Injector False))"]
  have h1: "fst (initializeI18nWithCustom True I18nTranslateImplement
               (ex_config\<lparr>assetsUrl := ''/other''\<rparr>) reg) = Inr ?inst"
   and h2: "hook_constructed (snd (initializeI18nWithCustom True I18nTranslateImplement
               (ex_config\<lparr>assetsUrl := ''/other''\<rparr>) reg)) = 1"
    using r a i by simp_all
  have g1: "fst (initializeI18n (ex_configure (Some (Injector False))) g) = Inr (Some ?obj)"
   and g2: "global_constructed (snd (initializeI18n (ex_configure (Some (Injector False))) g)) = 1"
    using r b c by simp_all
  have a': "fst (initializeI18nWithCustom True I18nTranslateImplement ex_config new_HookRegistry) = Inr ?inst"
    using a by simp
  have b': "fst (initializeI18n (ex_configure (Some (Injector True))) new_GlobalRegistry) = Inr (Some ?obj)"
    using b by simp
  from a' b' h1 h2 g1 g2 show ?thesis
    unfolding reg_def g_def hook_initializeI18n_def by simp
qed

text \<open>
  Outside an injection context the first initialization with \<open>I18nTranslateImplement\<close>
  throws, and nothing is registered.
\<close>

lemma hook_initializeI18n_outside_injection_context:
  "hook_initializeI18n False ex_config new_HookRegistry = (Inl ''NG0203'', new_HookRegistry)"
  by (simp add: hook_initializeI18n_def initializeI18nWithCustom_def new_HookRegistry_def
        construct_def ex_config_def I18nTranslateImplement_def)

text \<open>
  Claim C9 as stated fails for a second initialization that asks for another
  implementation class: it throws instead of returning the existing instance.
\<close>

theorem reinitialize_other_class_counterexample:
  "fst (hook_initializeI18n True ex_config new_HookRegistry)
     = Inr \<lparr>instance_number = 0, instance_class = I18nTranslateImplement, instance_config = ex_config\<rparr>
 \<and> fst (initializeI18nWithCustom True ex_custom_class ex_config
          (snd (hook_initializeI18n True ex_config new_HookRegistry)))
     = Inl ''[I18n] Cannot reinitialize with different implementation type''"
  by (simp add: hook_initializeI18n_def initializeI18nWithCustom_def new_HookRegistry_def
        construct_def ex_config_def I18nTranslateImplement_def ex_custom_class_def instanceof_def
        Let_def)

end
